theory Spec2Isabelle
  imports Main "HOL-Library.Word" "HOL-Library.Signed_Division"
begin

section \<open>Machine integers\<close>

text \<open>
  The handlers of \<^verbatim>\<open>webengine/httpengine.go\<close> compute with Go's \<^verbatim>\<open>int\<close> and
  \<^verbatim>\<open>int64\<close>. Both are taken as 64-bit two's complement values (the amd64 targets of
  the service), so the conversion \<^verbatim>\<open>int64(i)\<close> is the identity. Addition and
  multiplication are the wrapping operations of \<open>64 word\<close>; comparisons are the signed
  ones (\<open><s\<close>, \<open>\<le>s\<close>); Go's \<^verbatim>\<open>/\<close> truncates towards zero.
\<close>

type_synonym int64 = "64 word"

definition go_div :: "int64 \<Rightarrow> int64 \<Rightarrow> int64" where
  "go_div a b = word_of_int (sint a sdiv sint b)"

text \<open>
  \<^verbatim>\<open>strconv.Atoi\<close> of the standard library, on the text of a path variable: an optional
  sign, then one or more decimal digits and nothing else; a value outside the range of
  \<^verbatim>\<open>int\<close> is an error, like a text that is not a numeral. \<open>None\<close> is the error.
\<close>

definition isDigit :: "char \<Rightarrow> bool" where
  "isDigit c = (48 \<le> (of_char c :: nat) \<and> (of_char c :: nat) \<le> 57)"

definition number :: "string \<Rightarrow> nat" where
  "number ds = foldl (\<lambda>a c. 10 * a + (of_char c - 48)) 0 ds"

definition Atoi :: "string \<Rightarrow> int64 option" where
  "Atoi s =
     (let neg = (s \<noteq> [] \<and> hd s = CHR ''-'');
          ds = (if s \<noteq> [] \<and> (hd s = CHR ''-'' \<or> hd s = CHR ''+'') then tl s else s)
      in if ds = [] \<or> \<not> list_all isDigit ds then None
         else (let k = (if neg then - int (number ds) else int (number ds))
               in if - (2 ^ 63) \<le> k \<and> k < 2 ^ 63 then Some (word_of_int k) else None))"

text \<open>
  The decimal numeral of an integer, as a client writes it into the path: the text the
  statements below use for the input \<open>i\<close>.
\<close>

fun digitsOf :: "nat \<Rightarrow> string" where
  "digitsOf n = (if n < 10 then [''0123456789'' ! n] else digitsOf (n div 10) @ [''0123456789'' ! (n mod 10)])"

declare digitsOf.simps [simp del]

definition Itoa :: "int \<Rightarrow> string" where
  "Itoa k = (if k < 0 then CHR ''-'' # digitsOf (nat (- k)) else digitsOf (nat k))"

section \<open>The response writer\<close>

text \<open>
  What a handler writes is kept as a list of chunks: the literal text of the format
  string, and the formatted arguments kept symbolic (\<^verbatim>\<open>%d\<close> of an integer,
  \<^verbatim>\<open>%v\<close> of a boolean, \<^verbatim>\<open>%s\<close> of \<^verbatim>\<open>time.Unix(x, 0)\<close>, a JSON object).
  \<^verbatim>\<open>WriteHeader\<close> fixes the status code once; a write with no status code yet sends
  200, and so does a handler that returns having written nothing.
\<close>

datatype chunk =
    Lit string
  | Str string
  | Int64 int64
  | Flag bool
  | Time int64
  | Obj "(string \<times> chunk) list"

record ResponseWriter =
  contentType :: string
  statusCode :: "nat option"
  written :: "chunk list"

definition StatusOK :: nat where "StatusOK = 200"
definition StatusBadRequest :: nat where "StatusBadRequest = 400"
definition StatusForbidden :: nat where "StatusForbidden = 403"
definition StatusNotFound :: nat where "StatusNotFound = 404"
definition StatusInternalServerError :: nat where "StatusInternalServerError = 500"

definition newWriter :: ResponseWriter where
  "newWriter = \<lparr>contentType = [], statusCode = None, written = []\<rparr>"

definition WriteHeader :: "nat \<Rightarrow> ResponseWriter \<Rightarrow> ResponseWriter" where
  "WriteHeader c w = (case statusCode w of None \<Rightarrow> w\<lparr>statusCode := Some c\<rparr> | Some _ \<Rightarrow> w)"

definition Fprint :: "chunk list \<Rightarrow> ResponseWriter \<Rightarrow> ResponseWriter" where
  "Fprint cs w = (let w' = WriteHeader StatusOK w in w'\<lparr>written := written w' @ cs\<rparr>)"

definition setContentJSON :: "ResponseWriter \<Rightarrow> ResponseWriter" where
  "setContentJSON w = w\<lparr>contentType := ''application/json; charset=UTF-8''\<rparr>"

definition printJSON :: "string \<Rightarrow> ResponseWriter \<Rightarrow> ResponseWriter" where
  "printJSON jsonbytes w = Fprint [Str jsonbytes, Lit ''\<newline>''] w"

definition responseCode :: "ResponseWriter \<Rightarrow> nat" where
  "responseCode w = (case statusCode w of None \<Rightarrow> StatusOK | Some c \<Rightarrow> c)"

section \<open>The state table and the worker\<close>

text \<open>
  The packages \<^verbatim>\<open>internalstate\<close> and \<^verbatim>\<open>chefrunner\<close> are not in the source tree: the
  handlers reach them through the interfaces \<^verbatim>\<open>StateTableReadWriter\<close> and \<^verbatim>\<open>Worker\<close>.
  Their data and operations follow the specification (sections 3, 4.1 to 4.4 and 6); the
  operations keep the names the handlers call them by.
\<close>

text \<open>Modelled from the spec: the status of a Run Record (sections 3 and 4.4), an enum of package internalstate.\<close>

datatype RunStatus = Registered | Running | Complete | Failed

text \<open>Modelled from the spec: the Run Record of section 3 (package internalstate).\<close>

record RunRecord =
  guid :: string
  status :: RunStatus
  exitcode :: int
  starttime :: int64
  ondemand :: bool
  custom :: "string option"

text \<open>
  Modelled from the spec: the Job Table (insertion ordered) and the Scheduler State of
  section 3, the fields of the state table of package internalstate. The interval is in
  seconds and a maintenance end time of 0 means no maintenance.
\<close>

record StateTable =
  table :: "RunRecord list"
  periodicRuns :: bool
  chefRunTimer :: int64
  lastRunStartTime :: int64
  maintenanceTimeEnd :: int64
  runLock :: bool
  lastRunGUID :: string

text \<open>Modelled from the spec: the queue slot of section 3, held by the worker of package chefrunner.\<close>

record Worker =
  queued :: "string option"

text \<open>Modelled from the spec: \<open>read(identifier) \<rightarrow> record or NotFound\<close> (section 4.2), the method Read of the state table.\<close>

definition Read :: "StateTable \<Rightarrow> string \<Rightarrow> RunRecord option" where
  "Read st g = find (\<lambda>r. guid r = g) (table st)"

text \<open>Modelled from the spec: \<open>getLockStatus\<close> (section 6), the method ReadRunLock of the state table.\<close>

definition ReadRunLock :: "StateTable \<Rightarrow> bool" where
  "ReadRunLock st = runLock st"

text \<open>Modelled from the spec: \<open>setLock\<close> (section 6), the method LockRuns of the state table.\<close>

definition LockRuns :: "bool \<Rightarrow> StateTable \<Rightarrow> StateTable" where
  "LockRuns b st = st\<lparr>runLock := b\<rparr>"

text \<open>Modelled from the spec: \<open>getRunInterval() \<rightarrow> seconds\<close> (section 6), the method ReadChefRunTimer of the state table.\<close>

definition ReadChefRunTimer :: "StateTable \<Rightarrow> int64" where
  "ReadChefRunTimer st = chefRunTimer st"

text \<open>
  Modelled from the spec: \<open>setRunInterval(positiveSeconds)\<close> (section 6), the method
  WriteChefRunTimer of the state table. The state holds seconds. The spec takes the
  argument in seconds; the README (\<^verbatim>\<open>/chef/interval/{i}\<close>) calls it minutes. The seconds
  that one unit of the argument stands for are the parameter \<open>scale\<close>: 1 on the spec's
  reading, 60 on the README's. The product is the one of \<^verbatim>\<open>int64\<close>.
\<close>

definition WriteChefRunTimer :: "int64 \<Rightarrow> int64 \<Rightarrow> StateTable \<Rightarrow> StateTable" where
  "WriteChefRunTimer scale i st = st\<lparr>chefRunTimer := i * scale\<rparr>"

text \<open>Modelled from the spec: the last fire time of the Scheduler State (section 3), the method GetlastRunStartTime of the state table.\<close>

definition GetlastRunStartTime :: "StateTable \<Rightarrow> int64" where
  "GetlastRunStartTime st = lastRunStartTime st"

text \<open>Modelled from the spec: the end time of \<open>getMaintenanceStatus\<close> (section 6), the method ReadMaintenanceTimeEnd of the state table.\<close>

definition ReadMaintenanceTimeEnd :: "StateTable \<Rightarrow> int64" where
  "ReadMaintenanceTimeEnd st = maintenanceTimeEnd st"

text \<open>Modelled from the spec: the store behind \<open>startMaintenance\<close> and \<open>endMaintenance\<close> (sections 4.3 and 6), the method WriteMaintenanceTimeEnd of the state table.\<close>

definition WriteMaintenanceTimeEnd :: "int64 \<Rightarrow> StateTable \<Rightarrow> StateTable" where
  "WriteMaintenanceTimeEnd t st = st\<lparr>maintenanceTimeEnd := t\<rparr>"

text \<open>
  Modelled from the spec: the method InMaintenceMode of the state table. Section 4.3 gates
  a periodic run on \<open>maintenance end-time > now\<close>; the clock is the argument \<open>now\<close>.
\<close>

definition InMaintenceMode :: "int64 \<Rightarrow> StateTable \<Rightarrow> bool" where
  "InMaintenceMode now st = (now <s maintenanceTimeEnd st)"

text \<open>
  Modelled from the spec: identifiers are globally unique (section 3; a new identifier
  is distinct from the prior ones, section 8). \<open>u\<close> is the random draw made for a
  request. A draw that is already the identifier of a record of the Job Table is not
  handed out: a text longer than every identifier of the table takes its place.
\<close>

definition longest :: "RunRecord list \<Rightarrow> nat" where
  "longest rs = foldr (\<lambda>r n. max (length (guid r)) n) rs 0"

definition uniqueIdentifier :: "string \<Rightarrow> RunRecord list \<Rightarrow> string" where
  "uniqueIdentifier u rs =
     (case find (\<lambda>r. guid r = u) rs of
        None \<Rightarrow> u
      | Some _ \<Rightarrow> replicate (Suc (longest rs)) (CHR ''0''))"

text \<open>Modelled from the spec: the origin of a request and the condition of a refusal (section 4.1).\<close>

datatype Origin = OnDemand | Custom | Periodic

datatype Condition = Locked

text \<open>
  Modelled from the spec: the coalescing rule and the side effect of section 4.1, the
  admission that the worker's methods OnDemandRun and CustomRun carry out. A pending
  record in the queue slot is returned unchanged; otherwise a record with a new
  identifier, status registered, the exit code sentinel (99 in the README's example),
  the current timestamp \<open>t\<close> and the origin flag is appended to the Job Table and takes
  the slot.
\<close>

definition admitRun ::
  "Origin \<Rightarrow> string option \<Rightarrow> string \<Rightarrow> int64 \<Rightarrow> Worker \<times> StateTable \<Rightarrow> string \<times> Worker \<times> StateTable" where
  "admitRun origin payload u t ws =
     (case queued (fst ws) of
        Some g \<Rightarrow> (g, ws)
      | None \<Rightarrow>
          (let n = uniqueIdentifier u (table (snd ws))
           in (n, (fst ws)\<lparr>queued := Some n\<rparr>,
                  (snd ws)\<lparr>table := table (snd ws) @
                     [\<lparr>guid = n, status = Registered, exitcode = 99, starttime = t,
                       ondemand = (origin \<noteq> Periodic), custom = payload\<rparr>]\<rparr>)))"

text \<open>
  Modelled from the spec: \<open>requestRun(origin, payload?)\<close> of section 4.1 with its lock
  rule: with the run lock set the request fails with \<open>Locked\<close> and nothing is changed,
  unless the caller signals the override; otherwise the run is admitted.
\<close>

definition requestRun ::
  "Origin \<Rightarrow> string option \<Rightarrow> bool \<Rightarrow> string \<Rightarrow> int64 \<Rightarrow> Worker \<times> StateTable \<Rightarrow>
     (Condition + string) \<times> Worker \<times> StateTable" where
  "requestRun origin payload override u t ws =
     (if runLock (snd ws) \<and> \<not> override then (Inl Locked, ws)
      else (let r = admitRun origin payload u t ws in (Inr (fst r), snd r)))"

text \<open>
  Modelled from the spec: \<open>requestOnDemandRun() \<rightarrow> identifier\<close> (section 6), the method
  OnDemandRun of the worker. The handler calls it for one value, the identifier, after
  its own test of the run lock: the method is the admission.
\<close>

definition OnDemandRun :: "string \<Rightarrow> int64 \<Rightarrow> Worker \<times> StateTable \<Rightarrow> string \<times> Worker \<times> StateTable" where
  "OnDemandRun u t ws = admitRun OnDemand None u t ws"

text \<open>
  Modelled from the spec: \<open>requestCustomRun(text) \<rightarrow> identifier\<close> (section 6), the method
  CustomRun of the worker. The handler calls it for one value, the identifier, once its
  own test of the run lock (with the \<^verbatim>\<open>force\<close> override) is past: the method is the
  admission.
\<close>

definition CustomRun :: "string \<Rightarrow> string \<Rightarrow> int64 \<Rightarrow> Worker \<times> StateTable \<Rightarrow> string \<times> Worker \<times> StateTable" where
  "CustomRun text u t ws = admitRun Custom (Some text) u t ws"

text \<open>Modelled from the spec: the status part of \<open>updateStatus\<close> (section 4.2), on the Job Table of package internalstate.\<close>

definition setStatus :: "string \<Rightarrow> RunStatus \<Rightarrow> RunRecord list \<Rightarrow> RunRecord list" where
  "setStatus g s rs = map (\<lambda>r. if guid r = g then r\<lparr>status := s\<rparr> else r) rs"

text \<open>
  Modelled from the spec: the first step of the loop of the worker of package chefrunner
  (section 4.4): it takes the record off the queue slot and moves its status to running.
\<close>

definition workerTake :: "Worker \<times> StateTable \<Rightarrow> Worker \<times> StateTable" where
  "workerTake ws =
     (case queued (fst ws) of
        None \<Rightarrow> ws
      | Some g \<Rightarrow> ((fst ws)\<lparr>queued := None\<rparr>, (snd ws)\<lparr>table := setStatus g Running (table (snd ws))\<rparr>))"

text \<open>
  A sequence of on-demand requests without override, each with the draw and the clock of
  its own: the results in order, and the worker and the state table left at the end.
\<close>

fun requestOnDemandRuns ::
  "(string \<times> int64) list \<Rightarrow> Worker \<times> StateTable \<Rightarrow> (Condition + string) list \<times> Worker \<times> StateTable" where
  "requestOnDemandRuns [] ws = ([], ws)"
| "requestOnDemandRuns (d # ds) ws =
     (let r = requestRun OnDemand None False (fst d) (snd d) ws; rs = requestOnDemandRuns ds (snd r)
      in (fst r # fst rs, snd rs))"

section \<open>The HTTP engine\<close>

record customRunWhitelist =
  whitelist :: "string list"
  use :: bool

text \<open>
  The engine's pointers to the state table and to the worker are the fields \<open>state\<close> and
  \<open>worker\<close>; the router, the loggers and the server play no part in what follows.
\<close>

record HTTPEngine =
  state :: StateTable
  worker :: Worker
  whitelists :: customRunWhitelist

definition New :: "StateTable \<Rightarrow> Worker \<Rightarrow> HTTPEngine" where
  "New st wk = \<lparr>state = st, worker = wk, whitelists = \<lparr>whitelist = [], use = False\<rparr>\<rparr>"

definition SetWhitelist :: "string list \<Rightarrow> HTTPEngine \<Rightarrow> HTTPEngine" where
  "SetWhitelist wl e = e\<lparr>whitelists := \<lparr>whitelist = wl, use = True\<rparr>\<rparr>"

text \<open>
  A call of a worker method from a handler: the worker and the state table it shares with
  the engine are both updated.
\<close>

definition callWorker ::
  "(Worker \<times> StateTable \<Rightarrow> string \<times> Worker \<times> StateTable) \<Rightarrow> HTTPEngine \<Rightarrow> string \<times> HTTPEngine" where
  "callWorker f e =
     (let r = f (worker e, state e)
      in (fst r, e\<lparr>worker := fst (snd r), state := snd (snd r)\<rparr>))"

text \<open>
  What a request brings to \<^verbatim>\<open>registerChefCustomRun\<close>: the values of the URL parameter
  \<^verbatim>\<open>force\<close> (the empty list when the parameter is absent: a key that is present has at
  least one value), the bytes of the body (the payload), whether the handler's one call
  of \<^verbatim>\<open>Read\<close> fails with an error other than \<^verbatim>\<open>io.EOF\<close>, and how many bytes of the body
  are at hand when that call is made: all of them when the body has arrived whole, fewer
  when it arrives in parts.
\<close>

record Request =
  force :: "string list"
  body :: string
  readFails :: bool
  atHand :: nat

text \<open>
  \<^verbatim>\<open>r.Body.Read(bodySlurp)\<close> on a zeroed buffer of \<open>len\<close> bytes: one call copies the bytes
  at hand, as many as the buffer holds, and returns their count and the buffer. It does
  not wait for the rest of the body.
\<close>

definition Body_Read :: "Request \<Rightarrow> nat \<Rightarrow> nat \<times> string" where
  "Body_Read r len =
     (let n = min len (min (atHand r) (length (body r)))
      in (n, take n (body r) @ replicate (len - n) (CHR 0x00)))"

text \<open>\<^verbatim>\<open>bytes.TrimRight(b, "\x00")\<close>: the trailing zero bytes are cut off.\<close>

definition TrimRight :: "string \<Rightarrow> string" where
  "TrimRight b = rev (dropWhile (\<lambda>c. c = CHR 0x00) (rev b))"

text \<open>The loop over the whitelist, leaving at the first entry equal to the text.\<close>

fun matchWhitelist :: "string \<Rightarrow> string list \<Rightarrow> bool" where
  "matchWhitelist text [] = False"
| "matchWhitelist text (whitelistText # rest) =
     (if text = whitelistText then True else matchWhitelist text rest)"

definition lockedMessage :: "chunk list" where
  \<open>lockedMessage = [Lit ''{"Error":"Chefwaiter is locked"}\<newline>'']\<close>

definition guidStatusMessage :: "chunk list" where
  \<open>guidStatusMessage = [Lit ''{"Error":"Failed to read guid status"}\<newline>'']\<close>

definition positiveMessage :: "chunk list" where
  \<open>positiveMessage = [Lit ''{"Error":"Only a positive number will be accepted"}\<newline>'']\<close>

definition tooLargeMessage :: "chunk list" where
  \<open>tooLargeMessage = [Lit ''{"Error":"Body sent is too large. Max size 512 bytes"}\<newline>'']\<close>

text \<open>
  The handlers. Each starts from a new writer and returns it with the engine it leaves.
  \<open>marshal\<close> is \<^verbatim>\<open>json.MarshalIndent\<close> on what \<^verbatim>\<open>Read\<close> returns, \<open>None\<close> being its error;
  \<open>u\<close> and \<open>t\<close> are the draw and the clock for a new record; \<open>i\<close> is the text of the path
  variable \<^verbatim>\<open>i\<close>; \<open>now\<close> is \<^verbatim>\<open>time.Now().Unix()\<close>; \<open>scale\<close> is the parameter of
  \<^verbatim>\<open>WriteChefRunTimer\<close>.
\<close>

definition respondRead ::
  "(RunRecord option \<Rightarrow> string option) \<Rightarrow> string \<Rightarrow> ResponseWriter \<Rightarrow> HTTPEngine \<Rightarrow> ResponseWriter" where
  "respondRead marshal g w e =
     (case marshal (Read (state e) g) of
        None \<Rightarrow> Fprint guidStatusMessage (WriteHeader StatusInternalServerError w)
      | Some jsonBytes \<Rightarrow> printJSON jsonBytes w)"

definition registerChefRun ::
  "(RunRecord option \<Rightarrow> string option) \<Rightarrow> string \<Rightarrow> int64 \<Rightarrow> HTTPEngine \<Rightarrow> ResponseWriter \<times> HTTPEngine" where
  "registerChefRun marshal u t e =
     (let w = setContentJSON newWriter in
      if ReadRunLock (state e) then (Fprint lockedMessage (WriteHeader StatusForbidden w), e)
      else
        (let r = callWorker (OnDemandRun u t) e
         in (respondRead marshal (fst r) w (snd r), snd r)))"

definition checklock :: "Request \<Rightarrow> bool" where
  "checklock r = (case force r of [] \<Rightarrow> True | v # _ \<Rightarrow> v \<noteq> ''true'')"

definition registerChefCustomRun ::
  "(RunRecord option \<Rightarrow> string option) \<Rightarrow> string \<Rightarrow> int64 \<Rightarrow> Request \<Rightarrow> HTTPEngine \<Rightarrow> ResponseWriter \<times> HTTPEngine" where
  \<open>registerChefCustomRun marshal u t r e =
     (let w = setContentJSON newWriter in
      if checklock r \<and> ReadRunLock (state e)
      then (Fprint lockedMessage (WriteHeader StatusForbidden w), e)
      else
        (let rd = Body_Read r 513; n = fst rd; bodySlurp = snd rd in
         if readFails r then (WriteHeader StatusBadRequest w, e)
         else if n > 512 then (Fprint tooLargeMessage (WriteHeader StatusBadRequest w), e)
         else
           (let customRunText = TrimRight bodySlurp in
            if use (whitelists e) \<and> \<not> matchWhitelist customRunText (whitelist (whitelists e))
            then (Fprint [Lit (''{"Error":"Whitelist does not contain '' @ [CHR 0x27]), Str customRunText,
                          Lit (CHR 0x27 # ''"}\<newline>'')]
                    (WriteHeader StatusForbidden w), e)
            else
              (let c = callWorker (CustomRun customRunText u t) e
               in (respondRead marshal (fst c) w (snd c), snd c)))))\<close>

definition getChefStatus ::
  "(RunRecord option \<Rightarrow> string option) \<Rightarrow> string \<Rightarrow> HTTPEngine \<Rightarrow> ResponseWriter \<times> HTTPEngine" where
  "getChefStatus marshal g e = (respondRead marshal g (setContentJSON newWriter) e, e)"

definition getNextChefRun :: "HTTPEngine \<Rightarrow> ResponseWriter \<times> HTTPEngine" where
  "getNextChefRun e =
     (let w = WriteHeader StatusOK (setContentJSON newWriter);
          epoch = GetlastRunStartTime (state e) + ReadChefRunTimer (state e)
      in (Fprint [Obj [(''epoch'', Int64 epoch), (''human'', Time epoch)], Lit ''\<newline>''] w, e))"

definition setChefRunInterval :: "int64 \<Rightarrow> string \<Rightarrow> HTTPEngine \<Rightarrow> ResponseWriter \<times> HTTPEngine" where
  "setChefRunInterval scale i e =
     (let w = setContentJSON newWriter in
      case Atoi i of
        None \<Rightarrow> (Fprint positiveMessage (WriteHeader StatusBadRequest w), e)
      | Some n \<Rightarrow>
          if n <s 0 then (Fprint positiveMessage (WriteHeader StatusBadRequest w), e)
          else if n \<le>s 0 then (Fprint positiveMessage (WriteHeader StatusBadRequest w), e)
          else (w, e\<lparr>state := WriteChefRunTimer scale n (state e)\<rparr>))"

definition getChefRunInterval :: "HTTPEngine \<Rightarrow> ResponseWriter \<times> HTTPEngine" where
  \<open>getChefRunInterval e =
     (let i = ReadChefRunTimer (state e); w = setContentJSON newWriter
      in (Fprint [Lit ''{"current_interval":"'', Int64 (go_div i 60), Lit '' minutes"}\<newline>''] w, e))\<close>

definition getChefMaintenance :: "int64 \<Rightarrow> HTTPEngine \<Rightarrow> ResponseWriter \<times> HTTPEngine" where
  \<open>getChefMaintenance now e =
     (let w = setContentJSON newWriter
      in (Fprint [Lit ''{"end_time":"'', Time (ReadMaintenanceTimeEnd (state e)),
                  Lit ''", "in_maintenance":'', Flag (InMaintenceMode now (state e)), Lit ''}\<newline>''] w, e))\<close>

definition setChefMaintenance :: "string \<Rightarrow> int64 \<Rightarrow> HTTPEngine \<Rightarrow> ResponseWriter \<times> HTTPEngine" where
  \<open>setChefMaintenance i now e =
     (let w = setContentJSON newWriter in
      case Atoi i of
        None \<Rightarrow> (WriteHeader StatusBadRequest w, e)
      | Some minutes \<Rightarrow>
          (let endTime = now + minutes * 60;
               e' = e\<lparr>state := WriteMaintenanceTimeEnd endTime (state e)\<rparr>
           in (Fprint [Lit ''{"end_time":"'', Time endTime, Lit ''"}\<newline>''] w, e')))\<close>

definition removeChefMaintenance :: "HTTPEngine \<Rightarrow> ResponseWriter \<times> HTTPEngine" where
  \<open>removeChefMaintenance e =
     (let w = setContentJSON newWriter;
          e' = e\<lparr>state := WriteMaintenanceTimeEnd 0 (state e)\<rparr>
      in (Fprint [Lit ''{"end_time":"'', Time (ReadMaintenanceTimeEnd (state e')), Lit ''"}\<newline>''] w, e'))\<close>

definition getChefLock :: "HTTPEngine \<Rightarrow> ResponseWriter \<times> HTTPEngine" where
  \<open>getChefLock e =
     (Fprint [Lit ''{"Locked": '', Flag (ReadRunLock (state e)), Lit ''}\<newline>''] (setContentJSON newWriter), e)\<close>

definition setChefLock :: "HTTPEngine \<Rightarrow> ResponseWriter \<times> HTTPEngine" where
  \<open>setChefLock e =
     (let e' = e\<lparr>state := LockRuns True (state e)\<rparr>
      in (Fprint [Lit ''{"Locked": '', Flag (ReadRunLock (state e')), Lit ''}\<newline>''] (setContentJSON newWriter), e'))\<close>

definition removeChefLock :: "HTTPEngine \<Rightarrow> ResponseWriter \<times> HTTPEngine" where
  \<open>removeChefLock e =
     (let e' = e\<lparr>state := LockRuns False (state e)\<rparr>
      in (Fprint [Lit ''{"Locked": '', Flag (ReadRunLock (state e')), Lit ''}\<newline>''] (setContentJSON newWriter), e'))\<close>

text \<open>
  Modelled from the spec: the fresh start of the example scenario of section 8 (interval
  600 s, lock off, no maintenance, no run yet), with an idle worker. It is the state the
  examples below start from.
\<close>

definition freshState :: StateTable where
  "freshState = \<lparr>table = [], periodicRuns = True, chefRunTimer = 600, lastRunStartTime = 0,
     maintenanceTimeEnd = 0, runLock = False, lastRunGUID = []\<rparr>"

definition freshEngine :: HTTPEngine where
  "freshEngine = New freshState \<lparr>queued = None\<rparr>"

text \<open>
  An encoder that never fails, for the examples: \<open>null\<close> for no record, and for a record
  its identifier. The identifier and the timestamp are those of the README's example.
\<close>

definition sampleMarshal :: "RunRecord option \<Rightarrow> string option" where
  "sampleMarshal x = Some (case x of None \<Rightarrow> ''null'' | Some r \<Rightarrow> guid r)"

definition sampleGuid :: string where
  "sampleGuid = ''35434398-b40a-4686-ab38-38deccd4241b''"

definition sampleTime :: int64 where
  "sampleTime = 1501605431834067960"

section \<open>Facts about the writer\<close>

lemmas status_defs =
  StatusOK_def StatusBadRequest_def StatusForbidden_def StatusNotFound_def
  StatusInternalServerError_def

lemmas writer_defs =
  newWriter_def WriteHeader_def Fprint_def setContentJSON_def printJSON_def responseCode_def

lemma responseCode_new [simp]: "responseCode (setContentJSON newWriter) = StatusOK"
  by (simp add: writer_defs)

lemma responseCode_WriteHeader_new [simp]:
  "responseCode (WriteHeader c (setContentJSON newWriter)) = c"
  by (simp add: writer_defs)

lemma responseCode_Fprint [simp]:
  "responseCode (Fprint cs w) = responseCode w"
  by (simp add: writer_defs Let_def split: option.splits)

lemma written_Fprint_new [simp]:
  "written (Fprint cs (setContentJSON newWriter)) = cs"
  by (simp add: writer_defs Let_def)

lemma written_Fprint_WriteHeader_new [simp]:
  "written (Fprint cs (WriteHeader c (setContentJSON newWriter))) = cs"
  by (simp add: writer_defs Let_def)

lemma responseCode_printJSON [simp]: "responseCode (printJSON js w) = responseCode w"
  by (simp add: printJSON_def)

section \<open>Numerals and their reading\<close>

lemma number_snoc: "number (ds @ [c]) = 10 * number ds + (of_char c - 48)"
  by (simp add: number_def)

lemma of_char_digit: "d < 10 \<Longrightarrow> (of_char (''0123456789'' ! d) :: nat) = 48 + d"
proof -
  assume "d < 10"
  then have "d \<in> {0, 1, 2, 3, 4, 5, 6, 7, 8, 9}"
    by auto
  then show ?thesis
    by auto
qed

lemma digitsOf_nonempty: "digitsOf n \<noteq> []"
  by (subst digitsOf.simps) simp

lemma digitsOf_digits: "list_all isDigit (digitsOf n)"
proof (induction n rule: digitsOf.induct)
  case (1 n)
  show ?case
  proof (cases "n < 10")
    case True
    then have "isDigit (''0123456789'' ! n)"
      unfolding isDigit_def by (simp only: of_char_digit) simp
    with True show ?thesis
      by (subst digitsOf.simps) (simp del: nth_Cons_numeral)
  next
    case False
    have "n mod 10 < 10" by simp
    then have "isDigit (''0123456789'' ! (n mod 10))"
      unfolding isDigit_def by (simp only: of_char_digit) simp
    with False "1.IH" show ?thesis
      by (subst digitsOf.simps) (simp del: nth_Cons_numeral)
  qed
qed

lemma number_digitsOf: "number (digitsOf n) = n"
proof (induction n rule: digitsOf.induct)
  case (1 n)
  show ?case
  proof (cases "n < 10")
    case True
    then show ?thesis
      by (subst digitsOf.simps) (simp add: number_def of_char_digit del: nth_Cons_numeral)
  next
    case False
    have d: "n mod 10 < 10" by simp
    have "number (digitsOf (n div 10) @ [''0123456789'' ! (n mod 10)]) = 10 * (n div 10) + n mod 10"
      using False "1.IH" by (simp only: number_snoc of_char_digit [OF d]) simp
    with False show ?thesis
      by (subst digitsOf.simps) simp
  qed
qed

lemma hd_digitsOf: "hd (digitsOf n) \<noteq> CHR ''-'' \<and> hd (digitsOf n) \<noteq> CHR ''+''"
proof -
  have "isDigit (hd (digitsOf n))"
    using digitsOf_digits [of n] digitsOf_nonempty [of n]
    by (cases "digitsOf n") simp_all
  moreover have "\<not> isDigit CHR ''-''" "\<not> isDigit CHR ''+''"
    by (simp_all add: isDigit_def)
  ultimately show ?thesis by auto
qed

lemma Atoi_Itoa:
  "Atoi (Itoa k) = (if - (2 ^ 63) \<le> k \<and> k < 2 ^ 63 then Some (word_of_int k) else None)"
proof (cases "k < 0")
  case True
  then have "Atoi (Itoa k) =
      (if - (2 ^ 63) \<le> - int (nat (- k)) \<and> - int (nat (- k)) < 2 ^ 63
       then Some (word_of_int (- int (nat (- k)))) else None)"
    by (simp add: Atoi_def Itoa_def Let_def digitsOf_nonempty digitsOf_digits number_digitsOf)
  with True show ?thesis by simp
next
  case False
  then have "Atoi (Itoa k) =
      (if - (2 ^ 63) \<le> int (nat k) \<and> int (nat k) < 2 ^ 63
       then Some (word_of_int (int (nat k))) else None)"
    using hd_digitsOf [of "nat k"]
    by (simp add: Atoi_def Itoa_def Let_def digitsOf_nonempty digitsOf_digits number_digitsOf)
  with False show ?thesis by simp
qed

section \<open>Signed readings of the 64-bit operations\<close>

lemma sint_word_of_int_int64:
  "- (2 ^ 63) \<le> k \<Longrightarrow> k < 2 ^ 63 \<Longrightarrow> sint (word_of_int k :: int64) = k"
  by (simp add: sint_sbintrunc' signed_take_bit_int_eq_self)

lemma sint_int64_formula:
  "sint (word_of_int x :: int64) = (x + 2 ^ 63) mod 2 ^ 64 - 2 ^ 63"
  by (simp add: int_word_sint)

lemma sint_add_no_overflow:
  "- (2 ^ 63) \<le> sint a + sint b \<Longrightarrow> sint a + sint b < 2 ^ 63 \<Longrightarrow>
   sint (a + b :: int64) = sint a + sint b"
  by (simp add: sint_word_ariths signed_take_bit_int_eq_self)

lemma sint_add_formula:
  "sint (a + b :: int64) = (sint a + sint b + 2 ^ 63) mod 2 ^ 64 - 2 ^ 63"
proof -
  have "a + b = word_of_int (sint a + sint b)"
    by simp
  then show ?thesis
    by (simp only: sint_int64_formula)
qed

lemma sint_add_wraps_down:
  assumes "2 ^ 63 \<le> sint a + sint b"
  shows "sint (a + b :: int64) = sint a + sint b - 2 ^ 64"
proof -
  have "sint a < 2 ^ 63" "sint b < 2 ^ 63"
    using sint_lt [of a] sint_lt [of b] by simp_all
  then have hi: "sint a + sint b + 2 ^ 63 - 2 ^ 64 < 2 ^ 64"
    by simp
  have lo: "0 \<le> sint a + sint b + 2 ^ 63 - 2 ^ 64"
    using assms by simp
  have "(sint a + sint b + 2 ^ 63) mod 2 ^ 64 = (sint a + sint b + 2 ^ 63 - 2 ^ 64) mod 2 ^ 64"
    by (simp only: minus_mod_self2)
  also have "\<dots> = sint a + sint b + 2 ^ 63 - 2 ^ 64"
    using lo hi by (rule mod_pos_pos_trivial)
  finally show ?thesis
    by (simp only: sint_add_formula)
qed

lemma sint_add_wraps_up:
  assumes "sint a + sint b < - (2 ^ 63)"
  shows "sint (a + b :: int64) = sint a + sint b + 2 ^ 64"
proof -
  have "- (2 ^ 63) \<le> sint a" "- (2 ^ 63) \<le> sint b"
    using sint_ge [of a] sint_ge [of b] by simp_all
  then have lo: "0 \<le> sint a + sint b + 2 ^ 63 + 2 ^ 64"
    by simp
  have hi: "sint a + sint b + 2 ^ 63 + 2 ^ 64 < 2 ^ 64"
    using assms by simp
  have "(sint a + sint b + 2 ^ 63) mod 2 ^ 64 = (sint a + sint b + 2 ^ 63 + 2 ^ 64) mod 2 ^ 64"
    by (simp only: mod_add_self2)
  also have "\<dots> = sint a + sint b + 2 ^ 63 + 2 ^ 64"
    using lo hi by (rule mod_pos_pos_trivial)
  finally show ?thesis
    by (simp only: sint_add_formula)
qed

lemma sint_go_div_60:
  assumes "0 \<le> sint (i::int64)"
  shows "sint (go_div i 60) = sint i div 60"
proof -
  have lt: "sint i < 2 ^ 63"
    using sint_lt [of i] by simp
  have d: "sint i sdiv 60 = sint i div 60"
    using assms by (simp add: signed_divide_int_def sgn_if)
  have "0 \<le> sint i div 60" "sint i div 60 < 2 ^ 63"
    using assms lt by auto
  then have "signed_take_bit 63 (sint i div 60) = sint i div 60"
    by (simp add: signed_take_bit_int_eq_self)
  then show ?thesis
    by (simp add: go_div_def sint_sbintrunc' d)
qed

lemma sint_end_time:
  assumes "- (2 ^ 63) \<le> sint now + 60 * k" "sint now + 60 * k < 2 ^ 63"
  shows "sint (now + word_of_int k * 60 :: int64) = sint now + 60 * k"
proof -
  have "now + word_of_int k * 60 = (word_of_int (sint now + 60 * k) :: int64)"
    by simp
  then show ?thesis
    using assms by (simp only: sint_word_of_int_int64)
qed

lemma not_positive_iff: "(i <s 0 \<or> i \<le>s 0) = (\<not> 0 <s (i::int64))"
  by (auto simp: word_sless_alt word_sle_eq)

lemma positive_word_of_int:
  "0 < k \<Longrightarrow> k < 2 ^ 63 \<Longrightarrow> 0 <s (word_of_int k :: int64)"
  by (simp add: word_sless_alt sint_word_of_int_int64)

lemma not_positive_word_of_int:
  "- (2 ^ 63) \<le> k \<Longrightarrow> k \<le> 0 \<Longrightarrow> \<not> 0 <s (word_of_int k :: int64)"
  by (simp add: word_sless_alt sint_word_of_int_int64)

section \<open>The run interval\<close>

lemma setChefRunInterval_refused:
  assumes "Atoi i = None \<or> (\<exists>n. Atoi i = Some n \<and> \<not> 0 <s n)"
  shows "setChefRunInterval scale i e =
     (Fprint positiveMessage (WriteHeader StatusBadRequest (setContentJSON newWriter)), e)"
proof (cases "Atoi i")
  case None
  then show ?thesis
    by (simp add: setChefRunInterval_def Let_def)
next
  case (Some n)
  with assms have "\<not> 0 <s n"
    by simp
  with Some show ?thesis
    using not_positive_iff [of n] by (auto simp: setChefRunInterval_def Let_def)
qed

lemma setChefRunInterval_stored:
  "Atoi i = Some n \<Longrightarrow> 0 <s n \<Longrightarrow>
   setChefRunInterval scale i e =
     (setContentJSON newWriter, e\<lparr>state := (state e)\<lparr>chefRunTimer := n * scale\<rparr>\<rparr>)"
  using not_positive_iff [of n] by (auto simp: setChefRunInterval_def WriteChefRunTimer_def Let_def)

lemma setChefRunInterval_Itoa_refused:
  "k \<le> 0 \<or> 2 ^ 63 \<le> k \<Longrightarrow>
   setChefRunInterval scale (Itoa k) e =
     (Fprint positiveMessage (WriteHeader StatusBadRequest (setContentJSON newWriter)), e)"
  by (rule setChefRunInterval_refused) (auto simp add: Atoi_Itoa not_positive_word_of_int)

lemma setChefRunInterval_Itoa_stored:
  "0 < k \<Longrightarrow> k < 2 ^ 63 \<Longrightarrow>
   setChefRunInterval scale (Itoa k) e =
     (setContentJSON newWriter, e\<lparr>state := (state e)\<lparr>chefRunTimer := word_of_int k * scale\<rparr>\<rparr>)"
  by (rule setChefRunInterval_stored) (simp_all add: Atoi_Itoa positive_word_of_int)

text \<open>
  C9, as stated, fails: the positive integer \<open>2^63\<close> is answered with 400 Bad Request and
  the stored interval stays as it was (600 in the fresh engine), because \<^verbatim>\<open>Atoi\<close> reports
  a value out of range.
\<close>

theorem setChefRunInterval_out_of_range_counterexample:
  "responseCode (fst (setChefRunInterval 1 ''9223372036854775808'' freshEngine)) = 400 \<and>
   chefRunTimer (state (snd (setChefRunInterval 1 ''9223372036854775808'' freshEngine))) = 600 \<and>
   responseCode (fst (setChefRunInterval 60 ''9223372036854775808'' freshEngine)) = 400 \<and>
   chefRunTimer (state (snd (setChefRunInterval 60 ''9223372036854775808'' freshEngine))) = 600"
proof -
  have a: "Atoi ''9223372036854775808'' = None"
    by (simp add: Atoi_def isDigit_def number_def)
  have st: "chefRunTimer (state freshEngine) = 600"
    by (simp add: freshEngine_def New_def freshState_def)
  show ?thesis
    by (simp add: setChefRunInterval_refused a st status_defs)
qed

text \<open>
  C9, amended. \<^verbatim>\<open>setChefRunInterval\<close> accepts only the positive numbers of Go's \<^verbatim>\<open>int\<close>.
  When the path variable is not a numeral that \<^verbatim>\<open>Atoi\<close> reads, or the number read is at
  most 0, the answer is 400 Bad Request and the engine, with its stored interval, is
  unchanged; so it is for the numeral of every integer that is at most 0 or at least
  \<open>2^63\<close>. For the numeral of every integer \<open>k\<close> with \<open>0 < k < 2^63\<close> the answer is 200
  and the stored interval becomes what \<^verbatim>\<open>WriteChefRunTimer\<close> stores for \<open>k\<close> (\<open>k\<close> itself
  on the spec's reading of the unit), nothing else changing.
\<close>

theorem setChefRunInterval_accepts_positive_only:
  "(Atoi i = None \<or> (\<exists>n. Atoi i = Some n \<and> n \<le>s 0) \<longrightarrow>
      responseCode (fst (setChefRunInterval scale i e)) = StatusBadRequest \<and>
      snd (setChefRunInterval scale i e) = e) \<and>
   (k \<le> 0 \<or> 2 ^ 63 \<le> k \<longrightarrow>
      responseCode (fst (setChefRunInterval scale (Itoa k) e)) = StatusBadRequest \<and>
      snd (setChefRunInterval scale (Itoa k) e) = e) \<and>
   (0 < k \<and> k < 2 ^ 63 \<longrightarrow>
      responseCode (fst (setChefRunInterval scale (Itoa k) e)) = StatusOK \<and>
      snd (setChefRunInterval scale (Itoa k) e) =
        e\<lparr>state := WriteChefRunTimer scale (word_of_int k) (state e)\<rparr> \<and>
      ReadChefRunTimer (state (snd (setChefRunInterval scale (Itoa k) e))) = word_of_int k * scale \<and>
      sint (word_of_int k :: int64) = k)"
proof (intro conjI impI)
  assume bad: "Atoi i = None \<or> (\<exists>n. Atoi i = Some n \<and> n \<le>s 0)"
  then have "Atoi i = None \<or> (\<exists>n. Atoi i = Some n \<and> \<not> 0 <s n)"
    by (auto simp add: word_sless_alt word_sle_eq)
  then have eq: "setChefRunInterval scale i e =
      (Fprint positiveMessage (WriteHeader StatusBadRequest (setContentJSON newWriter)), e)"
    by (rule setChefRunInterval_refused)
  show "responseCode (fst (setChefRunInterval scale i e)) = StatusBadRequest"
    by (simp add: eq)
  show "snd (setChefRunInterval scale i e) = e"
    by (simp add: eq)
next
  assume "k \<le> 0 \<or> 2 ^ 63 \<le> k"
  then have eq: "setChefRunInterval scale (Itoa k) e =
      (Fprint positiveMessage (WriteHeader StatusBadRequest (setContentJSON newWriter)), e)"
    by (rule setChefRunInterval_Itoa_refused)
  show "responseCode (fst (setChefRunInterval scale (Itoa k) e)) = StatusBadRequest"
    by (simp add: eq)
  show "snd (setChefRunInterval scale (Itoa k) e) = e"
    by (simp add: eq)
next
  assume ok: "0 < k \<and> k < 2 ^ 63"
  then have eq: "setChefRunInterval scale (Itoa k) e =
      (setContentJSON newWriter, e\<lparr>state := (state e)\<lparr>chefRunTimer := word_of_int k * scale\<rparr>\<rparr>)"
    by (simp add: setChefRunInterval_Itoa_stored)
  show "responseCode (fst (setChefRunInterval scale (Itoa k) e)) = StatusOK"
    by (simp add: eq)
  show "snd (setChefRunInterval scale (Itoa k) e) =
        e\<lparr>state := WriteChefRunTimer scale (word_of_int k) (state e)\<rparr>"
    by (simp add: eq WriteChefRunTimer_def)
  show "ReadChefRunTimer (state (snd (setChefRunInterval scale (Itoa k) e))) = word_of_int k * scale"
    by (simp add: eq ReadChefRunTimer_def)
  show "sint (word_of_int k :: int64) = k"
    using ok by (simp add: sint_word_of_int_int64)
qed

theorem setChefRunInterval_accepts_positive_only_witness:
  "Itoa 30 = ''30'' \<and>
   responseCode (fst (setChefRunInterval 1 ''30'' freshEngine)) = 200 \<and>
   chefRunTimer (state (snd (setChefRunInterval 1 ''30'' freshEngine))) = 30 \<and>
   Itoa 0 = ''0'' \<and>
   responseCode (fst (setChefRunInterval 1 ''0'' freshEngine)) = 400 \<and>
   snd (setChefRunInterval 1 ''0'' freshEngine) = freshEngine \<and>
   Atoi ''abc'' = None \<and>
   responseCode (fst (setChefRunInterval 1 ''abc'' freshEngine)) = 400 \<and>
   snd (setChefRunInterval 1 ''abc'' freshEngine) = freshEngine"
proof -
  have i30: "Itoa 30 = ''30''"
    by (simp add: Itoa_def digitsOf.simps [of 30] digitsOf.simps [of 3])
  have i0: "Itoa 0 = ''0''"
    by (simp add: Itoa_def digitsOf.simps [of 0])
  have abc: "Atoi ''abc'' = None"
    by (simp add: Atoi_def isDigit_def number_def)
  have 1: "responseCode (fst (setChefRunInterval 1 ''30'' freshEngine)) = 200"
    "chefRunTimer (state (snd (setChefRunInterval 1 ''30'' freshEngine))) = 30"
    using setChefRunInterval_accepts_positive_only [of "''30''" 1 freshEngine 30]
    by (simp_all add: i30 status_defs ReadChefRunTimer_def WriteChefRunTimer_def)
  have 2: "responseCode (fst (setChefRunInterval 1 ''0'' freshEngine)) = 400"
    "snd (setChefRunInterval 1 ''0'' freshEngine) = freshEngine"
    using setChefRunInterval_accepts_positive_only [of "''0''" 1 freshEngine 0]
    by (simp_all add: i0 status_defs)
  have 3: "responseCode (fst (setChefRunInterval 1 ''abc'' freshEngine)) = 400"
    "snd (setChefRunInterval 1 ''abc'' freshEngine) = freshEngine"
    using abc setChefRunInterval_accepts_positive_only [of "''abc''" 1 freshEngine 0]
    by (simp_all add: status_defs)
  show ?thesis
    using i30 i0 abc 1 2 3 by simp
qed

section \<open>The next run\<close>

text \<open>
  C8, as stated, fails: with the last start time 1501605431 and the interval
  \<open>2^63 - 1\<close>, which \<^verbatim>\<open>setChefRunInterval\<close> has stored, the epoch that \<^verbatim>\<open>getNextChefRun\<close>
  reports is negative: the \<^verbatim>\<open>int64\<close> sum has wrapped and is not the sum of the two
  values. So it is with the interval 153722867280912930 stored as minutes.
\<close>

theorem getNextChefRun_wraps_counterexample:
  "responseCode (fst (setChefRunInterval 1 ''9223372036854775807''
      (freshEngine\<lparr>state := (state freshEngine)\<lparr>lastRunStartTime := 1501605431\<rparr>\<rparr>))) = 200 \<and>
   written (fst (getNextChefRun (snd (setChefRunInterval 1 ''9223372036854775807''
      (freshEngine\<lparr>state := (state freshEngine)\<lparr>lastRunStartTime := 1501605431\<rparr>\<rparr>))))) =
     [Obj [(''epoch'', Int64 (- 9223372035353170378)), (''human'', Time (- 9223372035353170378))],
      Lit ''\<newline>''] \<and>
   sint (- 9223372035353170378 :: int64) = - 9223372035353170378 \<and>
   written (fst (getNextChefRun (snd (setChefRunInterval 60 ''153722867280912930''
      (freshEngine\<lparr>state := (state freshEngine)\<lparr>lastRunStartTime := 1501605431\<rparr>\<rparr>))))) =
     [Obj [(''epoch'', Int64 (- 9223372035353170385)), (''human'', Time (- 9223372035353170385))],
      Lit ''\<newline>''] \<and>
   sint (- 9223372035353170385 :: int64) = - 9223372035353170385"
proof -
  have a: "Atoi ''9223372036854775807'' = Some 9223372036854775807"
    by (simp add: Atoi_def isDigit_def number_def)
  have b: "Atoi ''153722867280912930'' = Some 153722867280912930"
    by (simp add: Atoi_def isDigit_def number_def)
  have pa: "(0::int64) <s 9223372036854775807" and pb: "(0::int64) <s 153722867280912930"
    by (simp_all add: word_sless_alt)
  show ?thesis
    by (simp add: setChefRunInterval_stored [OF a pa] setChefRunInterval_stored [OF b pb]
        getNextChefRun_def Let_def GetlastRunStartTime_def ReadChefRunTimer_def
        freshEngine_def New_def freshState_def status_defs)
qed

text \<open>
  C8, amended. \<^verbatim>\<open>getNextChefRun\<close> answers 200 with the epoch \<open>last start time + run
  interval\<close> computed in \<^verbatim>\<open>int64\<close>, and changes nothing. The epoch is the sum of the two
  values whenever that sum lies in the range of \<^verbatim>\<open>int64\<close>; a sum of \<open>2^63\<close> or more is
  reported \<open>2^64\<close> lower, a sum below \<open>- 2^63\<close> is reported \<open>2^64\<close> higher.
\<close>

theorem getNextChefRun_epoch:
  "responseCode (fst (getNextChefRun e)) = StatusOK \<and>
   written (fst (getNextChefRun e)) =
     [Obj [(''epoch'', Int64 (lastRunStartTime (state e) + chefRunTimer (state e))),
           (''human'', Time (lastRunStartTime (state e) + chefRunTimer (state e)))],
      Lit ''\<newline>''] \<and>
   snd (getNextChefRun e) = e \<and>
   (- (2 ^ 63) \<le> sint (lastRunStartTime (state e)) + sint (chefRunTimer (state e)) \<and>
    sint (lastRunStartTime (state e)) + sint (chefRunTimer (state e)) < 2 ^ 63 \<longrightarrow>
    sint (lastRunStartTime (state e) + chefRunTimer (state e)) =
      sint (lastRunStartTime (state e)) + sint (chefRunTimer (state e))) \<and>
   (2 ^ 63 \<le> sint (lastRunStartTime (state e)) + sint (chefRunTimer (state e)) \<longrightarrow>
    sint (lastRunStartTime (state e) + chefRunTimer (state e)) =
      sint (lastRunStartTime (state e)) + sint (chefRunTimer (state e)) - 2 ^ 64) \<and>
   (sint (lastRunStartTime (state e)) + sint (chefRunTimer (state e)) < - (2 ^ 63) \<longrightarrow>
    sint (lastRunStartTime (state e) + chefRunTimer (state e)) =
      sint (lastRunStartTime (state e)) + sint (chefRunTimer (state e)) + 2 ^ 64)"
proof (intro conjI impI)
  show "responseCode (fst (getNextChefRun e)) = StatusOK"
    by (simp add: getNextChefRun_def Let_def)
  show "written (fst (getNextChefRun e)) =
     [Obj [(''epoch'', Int64 (lastRunStartTime (state e) + chefRunTimer (state e))),
           (''human'', Time (lastRunStartTime (state e) + chefRunTimer (state e)))],
      Lit ''\<newline>'']"
    by (simp add: getNextChefRun_def Let_def GetlastRunStartTime_def ReadChefRunTimer_def)
  show "snd (getNextChefRun e) = e"
    by (simp add: getNextChefRun_def Let_def)
next
  assume "- (2 ^ 63) \<le> sint (lastRunStartTime (state e)) + sint (chefRunTimer (state e)) \<and>
    sint (lastRunStartTime (state e)) + sint (chefRunTimer (state e)) < 2 ^ 63"
  then show "sint (lastRunStartTime (state e) + chefRunTimer (state e)) =
      sint (lastRunStartTime (state e)) + sint (chefRunTimer (state e))"
    by (simp add: sint_add_no_overflow)
next
  assume "2 ^ 63 \<le> sint (lastRunStartTime (state e)) + sint (chefRunTimer (state e))"
  then show "sint (lastRunStartTime (state e) + chefRunTimer (state e)) =
      sint (lastRunStartTime (state e)) + sint (chefRunTimer (state e)) - 2 ^ 64"
    by (rule sint_add_wraps_down)
next
  assume "sint (lastRunStartTime (state e)) + sint (chefRunTimer (state e)) < - (2 ^ 63)"
  then show "sint (lastRunStartTime (state e) + chefRunTimer (state e)) =
      sint (lastRunStartTime (state e)) + sint (chefRunTimer (state e)) + 2 ^ 64"
    by (rule sint_add_wraps_up)
qed

theorem getNextChefRun_epoch_witness:
  "written (fst (getNextChefRun
      (freshEngine\<lparr>state := (state freshEngine)\<lparr>lastRunStartTime := 1501605431\<rparr>\<rparr>))) =
     [Obj [(''epoch'', Int64 1501606031), (''human'', Time 1501606031)], Lit ''\<newline>''] \<and>
   sint (1501605431 + 600 :: int64) = 1501605431 + 600 \<and>
   sint (1501605431 + 9223372036854775807 :: int64) = 1501605431 + 9223372036854775807 - 2 ^ 64"
  using getNextChefRun_epoch
    [of "freshEngine\<lparr>state := (state freshEngine)\<lparr>lastRunStartTime := 1501605431\<rparr>\<rparr>"]
    getNextChefRun_epoch
    [of "freshEngine\<lparr>state := (state freshEngine)\<lparr>lastRunStartTime := 1501605431,
         chefRunTimer := 9223372036854775807\<rparr>\<rparr>"]
  by (simp add: freshEngine_def New_def freshState_def)

section \<open>Setting and reading the run interval\<close>

lemma getChefRunInterval_written:
  \<open>written (fst (getChefRunInterval e)) =
     [Lit ''{"current_interval":"'', Int64 (go_div (chefRunTimer (state e)) 60), Lit '' minutes"}\<newline>'']\<close>
  by (simp add: getChefRunInterval_def Let_def ReadChefRunTimer_def)

lemma reported_minutes:
  assumes "0 < k" "k \<le> 153722867280912930"
  shows "sint (go_div (word_of_int k * 60) 60) = k"
proof -
  have range: "- (2 ^ 63) \<le> 60 * k" "60 * k < 2 ^ 63"
    using assms by simp_all
  have "word_of_int k * 60 = (word_of_int (60 * k) :: int64)"
    by simp
  then have s: "sint (word_of_int k * 60 :: int64) = 60 * k"
    using range by (simp only: sint_word_of_int_int64)
  have "0 \<le> sint (word_of_int k * 60 :: int64)"
    using assms s by simp
  then have "sint (go_div (word_of_int k * 60) 60) = sint (word_of_int k * 60 :: int64) div 60"
    by (rule sint_go_div_60)
  then show ?thesis
    by (simp add: s)
qed

lemma reported_seconds:
  assumes "0 < k" "k < 2 ^ 63"
  shows "sint (go_div (word_of_int k) 60) = k div 60"
proof -
  have s: "sint (word_of_int k :: int64) = k"
    using assms by (simp add: sint_word_of_int_int64)
  then have "0 \<le> sint (word_of_int k :: int64)"
    using assms by simp
  then have "sint (go_div (word_of_int k) 60) = sint (word_of_int k :: int64) div 60"
    by (rule sint_go_div_60)
  then show ?thesis
    by (simp add: s)
qed

text \<open>
  C4, as stated, fails on either reading of the unit. When the state table stores the
  argument as seconds, the interval 30 is stored as 30 and reported as 0 minutes. When it
  stores the argument as minutes, the interval 307445734561825861 is accepted with 200,
  its product with 60 wraps to 44 in \<^verbatim>\<open>int64\<close>, 44 seconds are stored and 0 minutes are
  reported.
\<close>

theorem interval_roundtrip_counterexample:
  \<open>responseCode (fst (setChefRunInterval 1 ''30'' freshEngine)) = 200 \<and>
   chefRunTimer (state (snd (setChefRunInterval 1 ''30'' freshEngine))) = 30 \<and>
   written (fst (getChefRunInterval (snd (setChefRunInterval 1 ''30'' freshEngine)))) =
     [Lit ''{"current_interval":"'', Int64 0, Lit '' minutes"}\<newline>''] \<and>
   responseCode (fst (setChefRunInterval 60 ''307445734561825861'' freshEngine)) = 200 \<and>
   chefRunTimer (state (snd (setChefRunInterval 60 ''307445734561825861'' freshEngine))) = 44 \<and>
   written (fst (getChefRunInterval (snd (setChefRunInterval 60 ''307445734561825861'' freshEngine)))) =
     [Lit ''{"current_interval":"'', Int64 0, Lit '' minutes"}\<newline>'']\<close>
proof -
  have a: "Atoi ''30'' = Some 30"
    by (simp add: Atoi_def isDigit_def number_def)
  have b: "Atoi ''307445734561825861'' = Some 307445734561825861"
    by (simp add: Atoi_def isDigit_def number_def)
  have pa: "(0::int64) <s 30" and pb: "(0::int64) <s 307445734561825861"
    by (simp_all add: word_sless_alt)
  have w: "(307445734561825861 * 60 :: int64) = 44"
    by simp
  have d: "go_div 30 60 = 0" "go_div 44 60 = 0"
    by (simp_all add: go_div_def)
  show ?thesis
    by (simp only: setChefRunInterval_stored [OF a pa] setChefRunInterval_stored [OF b pb] w)
      (simp add: getChefRunInterval_written d status_defs)
qed

text \<open>
  C4, amended. For the numeral of every integer \<open>k\<close> with \<open>0 < k < 2^63\<close>, after
  \<^verbatim>\<open>setChefRunInterval\<close> has answered 200, \<^verbatim>\<open>getChefRunInterval\<close> reports the stored
  interval divided by 60, rounded down, as minutes. When the state table stores the
  argument as minutes (\<open>scale = 60\<close>, the README's unit), the report is \<open>k\<close> itself for
  every \<open>k\<close> up to 153722867280912930, the largest whose product with 60 fits in
  \<^verbatim>\<open>int64\<close>. When it stores the argument as seconds (\<open>scale = 1\<close>, the spec's unit), the
  report is \<open>k\<close> divided by 60, rounded down.
\<close>

theorem interval_set_then_get:
  \<open>0 < k \<Longrightarrow> k < 2 ^ 63 \<Longrightarrow>
   responseCode (fst (setChefRunInterval scale (Itoa k) e)) = StatusOK \<and>
   ReadChefRunTimer (state (snd (setChefRunInterval scale (Itoa k) e))) = word_of_int k * scale \<and>
   written (fst (getChefRunInterval (snd (setChefRunInterval scale (Itoa k) e)))) =
     [Lit ''{"current_interval":"'', Int64 (go_div (word_of_int k * scale) 60), Lit '' minutes"}\<newline>''] \<and>
   (scale = 60 \<and> k \<le> 153722867280912930 \<longrightarrow> sint (go_div (word_of_int k * scale) 60) = k) \<and>
   (scale = 1 \<longrightarrow> sint (go_div (word_of_int k * scale) 60) = k div 60)\<close>
proof -
  assume pos: "0 < k" and range: "k < 2 ^ 63"
  note eq = setChefRunInterval_Itoa_stored [OF pos range, of scale e]
  have code: "responseCode (fst (setChefRunInterval scale (Itoa k) e)) = StatusOK"
    by (simp add: eq)
  have stored: "ReadChefRunTimer (state (snd (setChefRunInterval scale (Itoa k) e))) = word_of_int k * scale"
    by (simp add: eq ReadChefRunTimer_def)
  have shown: \<open>written (fst (getChefRunInterval (snd (setChefRunInterval scale (Itoa k) e)))) =
     [Lit ''{"current_interval":"'', Int64 (go_div (word_of_int k * scale) 60), Lit '' minutes"}\<newline>'']\<close>
    by (simp add: eq getChefRunInterval_written)
  have minutes: "sint (go_div (word_of_int k * scale) 60) = k"
    if "scale = 60 \<and> k \<le> 153722867280912930"
    using that pos by (simp add: reported_minutes)
  have seconds: "sint (go_div (word_of_int k * scale) 60) = k div 60" if "scale = 1"
    using that pos range by (simp add: reported_seconds)
  show ?thesis
    using code stored shown minutes seconds by blast
qed

theorem interval_set_then_get_witness:
  \<open>Itoa 30 = ''30'' \<and>
   written (fst (getChefRunInterval (snd (setChefRunInterval 60 ''30'' freshEngine)))) =
     [Lit ''{"current_interval":"'', Int64 30, Lit '' minutes"}\<newline>''] \<and>
   chefRunTimer (state (snd (setChefRunInterval 60 ''30'' freshEngine))) = 1800 \<and>
   written (fst (getChefRunInterval (snd (setChefRunInterval 1 ''30'' freshEngine)))) =
     [Lit ''{"current_interval":"'', Int64 0, Lit '' minutes"}\<newline>'']\<close>
proof -
  have i30: "Itoa 30 = ''30''"
    by (simp add: Itoa_def digitsOf.simps [of 30] digitsOf.simps [of 3])
  have d: "go_div 1800 60 = 30" "go_div 30 60 = 0"
    by (simp_all add: go_div_def)
  show ?thesis
    using i30 interval_set_then_get [of 30 60 freshEngine] interval_set_then_get [of 30 1 freshEngine]
    by (simp add: d ReadChefRunTimer_def)
qed

section \<open>The maintenance window\<close>

lemma setChefMaintenance_Some:
  "Atoi i = Some minutes \<Longrightarrow>
   setChefMaintenance i now e =
     (Fprint [Lit ''{\"end_time\":\"'', Time (now + minutes * 60), Lit ''\"}\<newline>'']
        (setContentJSON newWriter),
      e\<lparr>state := (state e)\<lparr>maintenanceTimeEnd := now + minutes * 60\<rparr>\<rparr>)"
  by (simp add: setChefMaintenance_def Let_def WriteMaintenanceTimeEnd_def)

lemma removeChefMaintenance_snd:
  "snd (removeChefMaintenance e) = e\<lparr>state := (state e)\<lparr>maintenanceTimeEnd := 0\<rparr>\<rparr>"
  by (simp add: removeChefMaintenance_def Let_def WriteMaintenanceTimeEnd_def)

text \<open>
  C5, as stated, fails: for the non-negative whole number \<open>2^63 - 1\<close> the handler answers
  200 and stores the end time \<open>now - 60\<close>, one minute in the past, since the product
  with 60 wraps in \<^verbatim>\<open>int64\<close>; the engine is not in maintenance.
\<close>

theorem maintenance_wraps_counterexample:
  "responseCode (fst (setChefMaintenance ''9223372036854775807'' 1700000000 freshEngine)) = 200 \<and>
   maintenanceTimeEnd (state (snd (setChefMaintenance ''9223372036854775807'' 1700000000 freshEngine))) =
     1699999940 \<and>
   \<not> InMaintenceMode 1700000000
     (state (snd (setChefMaintenance ''9223372036854775807'' 1700000000 freshEngine)))"
proof -
  have a: "Atoi ''9223372036854775807'' = Some 9223372036854775807"
    by (simp add: Atoi_def isDigit_def number_def)
  show ?thesis
    by (simp add: setChefMaintenance_Some [OF a] InMaintenceMode_def word_sless_alt status_defs)
qed

text \<open>
  C5, amended. For the numeral of every whole number \<open>k\<close> with \<open>0 \<le> k < 2^63\<close>,
  \<^verbatim>\<open>setChefMaintenance\<close> answers 200 and stores the end time \<open>now + k * 60\<close> computed in
  \<^verbatim>\<open>int64\<close>; whenever \<open>now + 60 * k\<close> is below \<open>2^63\<close> this is the integer
  \<open>now + 60 * k\<close>, that is \<open>k\<close> minutes from now. With 0 minutes the window is over at
  once. \<^verbatim>\<open>removeChefMaintenance\<close> stores the end time 0. \<^verbatim>\<open>getChefMaintenance\<close> reports
  the stored end time and the flag of the state table, which is set exactly when the
  stored end time is later than \<open>now\<close>.
\<close>

theorem maintenance_window:
  \<open>(0 \<le> k \<and> k < 2 ^ 63 \<longrightarrow>
      responseCode (fst (setChefMaintenance (Itoa k) now e)) = StatusOK \<and>
      snd (setChefMaintenance (Itoa k) now e) =
        e\<lparr>state := (state e)\<lparr>maintenanceTimeEnd := now + word_of_int k * 60\<rparr>\<rparr> \<and>
      ReadMaintenanceTimeEnd (state (snd (setChefMaintenance (Itoa k) now e))) =
        now + word_of_int k * 60 \<and>
      (sint now + 60 * k < 2 ^ 63 \<longrightarrow>
         sint (ReadMaintenanceTimeEnd (state (snd (setChefMaintenance (Itoa k) now e)))) =
           sint now + 60 * k)) \<and>
   \<not> InMaintenceMode now (state (snd (setChefMaintenance (Itoa 0) now e))) \<and>
   ReadMaintenanceTimeEnd (state (snd (removeChefMaintenance e))) = 0 \<and>
   snd (removeChefMaintenance e) = e\<lparr>state := (state e)\<lparr>maintenanceTimeEnd := 0\<rparr>\<rparr> \<and>
   written (fst (getChefMaintenance now e)) =
     [Lit ''{"end_time":"'', Time (maintenanceTimeEnd (state e)),
      Lit ''", "in_maintenance":'', Flag (InMaintenceMode now (state e)), Lit ''}\<newline>''] \<and>
   snd (getChefMaintenance now e) = e \<and>
   InMaintenceMode now (state e) = (sint now < sint (maintenanceTimeEnd (state e)))\<close>
proof -
  have start: "responseCode (fst (setChefMaintenance (Itoa k) now e)) = StatusOK \<and>
      snd (setChefMaintenance (Itoa k) now e) =
        e\<lparr>state := (state e)\<lparr>maintenanceTimeEnd := now + word_of_int k * 60\<rparr>\<rparr> \<and>
      ReadMaintenanceTimeEnd (state (snd (setChefMaintenance (Itoa k) now e))) =
        now + word_of_int k * 60 \<and>
      (sint now + 60 * k < 2 ^ 63 \<longrightarrow>
         sint (ReadMaintenanceTimeEnd (state (snd (setChefMaintenance (Itoa k) now e)))) =
           sint now + 60 * k)"
    if k: "0 \<le> k \<and> k < 2 ^ 63"
  proof -
    from k have a: "Atoi (Itoa k) = Some (word_of_int k)"
      by (simp add: Atoi_Itoa)
    note eq = setChefMaintenance_Some [OF a, of now e]
    have lower: "- (2 ^ 63) \<le> sint now + 60 * k"
      using k sint_ge [of now] by simp
    have int: "sint (now + word_of_int k * 60 :: int64) = sint now + 60 * k"
      if "sint now + 60 * k < 2 ^ 63"
      using lower that by (rule sint_end_time)
    show ?thesis
      using int by (simp add: eq ReadMaintenanceTimeEnd_def)
  qed
  have zero: "\<not> InMaintenceMode now (state (snd (setChefMaintenance (Itoa 0) now e)))"
  proof -
    have a: "Atoi (Itoa 0) = Some 0"
      by (simp add: Atoi_Itoa)
    show ?thesis
      by (simp add: setChefMaintenance_Some [OF a] InMaintenceMode_def word_sless_alt)
  qed
  have stop: "ReadMaintenanceTimeEnd (state (snd (removeChefMaintenance e))) = 0"
    "snd (removeChefMaintenance e) = e\<lparr>state := (state e)\<lparr>maintenanceTimeEnd := 0\<rparr>\<rparr>"
    by (simp_all add: removeChefMaintenance_snd ReadMaintenanceTimeEnd_def)
  have get: \<open>written (fst (getChefMaintenance now e)) =
     [Lit ''{"end_time":"'', Time (maintenanceTimeEnd (state e)),
      Lit ''", "in_maintenance":'', Flag (InMaintenceMode now (state e)), Lit ''}\<newline>'']\<close>
    "snd (getChefMaintenance now e) = e"
    by (simp_all add: getChefMaintenance_def Let_def ReadMaintenanceTimeEnd_def)
  have flag: "InMaintenceMode now (state e) = (sint now < sint (maintenanceTimeEnd (state e)))"
    by (simp add: InMaintenceMode_def word_sless_alt)
  show ?thesis
    using start zero stop get flag by blast
qed

theorem maintenance_window_witness:
  "Itoa 30 = ''30'' \<and>
   maintenanceTimeEnd (state (snd (setChefMaintenance ''30'' 1700000000 freshEngine))) = 1700001800 \<and>
   sint (1700001800 :: int64) = 1700000000 + 60 * 30 \<and>
   InMaintenceMode 1700000000 (state (snd (setChefMaintenance ''30'' 1700000000 freshEngine))) \<and>
   \<not> InMaintenceMode 1700001800 (state (snd (setChefMaintenance ''30'' 1700000000 freshEngine))) \<and>
   maintenanceTimeEnd (state (snd (removeChefMaintenance
      (snd (setChefMaintenance ''30'' 1700000000 freshEngine))))) = 0"
proof -
  have i30: "Itoa 30 = ''30''"
    by (simp add: Itoa_def digitsOf.simps [of 30] digitsOf.simps [of 3])
  show ?thesis
    using i30 maintenance_window [of 30 1700000000 freshEngine]
      maintenance_window [of 30 1700000000 "snd (setChefMaintenance ''30'' 1700000000 freshEngine)"]
      maintenance_window [of 30 1700001800 "snd (setChefMaintenance ''30'' 1700000000 freshEngine)"]
    by (simp add: ReadMaintenanceTimeEnd_def)
qed

section \<open>Registering runs\<close>

lemma matchWhitelist_iff: "matchWhitelist text wl = (text \<in> set wl)"
  by (induction wl) auto

lemma TrimRight_zeros: "TrimRight (b @ replicate k (CHR 0x00)) = TrimRight b"
proof -
  have "dropWhile (\<lambda>c. c = CHR 0x00) (replicate k (CHR 0x00) @ ys) =
        dropWhile (\<lambda>c. c = CHR 0x00) ys" for ys
    by (induction k) simp_all
  then show ?thesis
    by (simp add: TrimRight_def)
qed

lemma TrimRight_replicate: "c \<noteq> CHR 0x00 \<Longrightarrow> TrimRight (replicate k c) = replicate k c"
  by (cases k) (simp_all add: TrimRight_def replicate_append_same)

lemma Body_Read_count: "fst (Body_Read r 513) = min 513 (min (atHand r) (length (body r)))"
  by (simp add: Body_Read_def Let_def)

lemma Body_Read_text:
  "TrimRight (snd (Body_Read r 513)) = TrimRight (take (fst (Body_Read r 513)) (body r))"
  by (simp add: Body_Read_def Let_def TrimRight_zeros)

lemma Body_Read_whole:
  "length (body r) \<le> atHand r \<Longrightarrow> length (body r) \<le> 512 \<Longrightarrow>
   \<not> 512 < fst (Body_Read r 513) \<and> TrimRight (snd (Body_Read r 513)) = TrimRight (body r)"
  by (simp add: Body_Read_def Let_def TrimRight_zeros)

lemma Body_Read_large:
  "512 < atHand r \<Longrightarrow> 512 < length (body r) \<Longrightarrow> 512 < fst (Body_Read r 513)"
  by (simp add: Body_Read_def Let_def)

lemma Body_Read_small: "length (body r) \<le> 512 \<Longrightarrow> \<not> 512 < fst (Body_Read r 513)"
  by (simp add: Body_Read_def Let_def)

lemma checklock_iff: "checklock r = (force r = [] \<or> hd (force r) \<noteq> ''true'')"
  by (cases "force r") (simp_all add: checklock_def)

lemma registerChefRun_locked:
  "ReadRunLock (state e) \<Longrightarrow>
   registerChefRun marshal u t e =
     (Fprint lockedMessage (WriteHeader StatusForbidden (setContentJSON newWriter)), e)"
  by (simp add: registerChefRun_def Let_def)

lemma registerChefRun_unlocked:
  "\<not> ReadRunLock (state e) \<Longrightarrow>
   registerChefRun marshal u t e =
     (respondRead marshal (fst (callWorker (OnDemandRun u t) e)) (setContentJSON newWriter)
        (snd (callWorker (OnDemandRun u t) e)),
      snd (callWorker (OnDemandRun u t) e))"
  by (simp add: registerChefRun_def Let_def)

lemma custom_locked:
  "checklock r \<Longrightarrow> ReadRunLock (state e) \<Longrightarrow>
   registerChefCustomRun marshal u t r e =
     (Fprint lockedMessage (WriteHeader StatusForbidden (setContentJSON newWriter)), e)"
  by (simp add: registerChefCustomRun_def Let_def)

lemma custom_readFails:
  "\<not> (checklock r \<and> ReadRunLock (state e)) \<Longrightarrow> readFails r \<Longrightarrow>
   registerChefCustomRun marshal u t r e =
     (WriteHeader StatusBadRequest (setContentJSON newWriter), e)"
  by (auto simp add: registerChefCustomRun_def Let_def)

lemma custom_tooLarge:
  "\<not> (checklock r \<and> ReadRunLock (state e)) \<Longrightarrow> \<not> readFails r \<Longrightarrow>
   512 < fst (Body_Read r 513) \<Longrightarrow>
   registerChefCustomRun marshal u t r e =
     (Fprint tooLargeMessage (WriteHeader StatusBadRequest (setContentJSON newWriter)), e)"
  by (auto simp add: registerChefCustomRun_def Let_def)

lemma custom_notListed:
  \<open>\<not> (checklock r \<and> ReadRunLock (state e)) \<Longrightarrow> \<not> readFails r \<Longrightarrow>
   \<not> 512 < fst (Body_Read r 513) \<Longrightarrow>
   use (whitelists e) \<Longrightarrow> TrimRight (snd (Body_Read r 513)) \<notin> set (whitelist (whitelists e)) \<Longrightarrow>
   registerChefCustomRun marshal u t r e =
     (Fprint [Lit (''{"Error":"Whitelist does not contain '' @ [CHR 0x27]),
              Str (TrimRight (snd (Body_Read r 513))), Lit (CHR 0x27 # ''"}\<newline>'')]
        (WriteHeader StatusForbidden (setContentJSON newWriter)), e)\<close>
  by (auto simp add: registerChefCustomRun_def Let_def matchWhitelist_iff)

lemma custom_admitted:
  "\<not> (checklock r \<and> ReadRunLock (state e)) \<Longrightarrow> \<not> readFails r \<Longrightarrow>
   \<not> 512 < fst (Body_Read r 513) \<Longrightarrow>
   \<not> use (whitelists e) \<or> TrimRight (snd (Body_Read r 513)) \<in> set (whitelist (whitelists e)) \<Longrightarrow>
   registerChefCustomRun marshal u t r e =
     (respondRead marshal (fst (callWorker (CustomRun (TrimRight (snd (Body_Read r 513))) u t) e))
        (setContentJSON newWriter)
        (snd (callWorker (CustomRun (TrimRight (snd (Body_Read r 513))) u t) e)),
      snd (callWorker (CustomRun (TrimRight (snd (Body_Read r 513))) u t) e))"
  by (auto simp add: registerChefCustomRun_def Let_def matchWhitelist_iff)

lemma responseCode_respondRead:
  "responseCode (respondRead marshal g (setContentJSON newWriter) e) =
     (case marshal (Read (state e) g) of None \<Rightarrow> StatusInternalServerError | Some _ \<Rightarrow> StatusOK)"
  by (simp add: respondRead_def split: option.splits)

lemma responseCode_respondRead_cases:
  "responseCode (respondRead marshal g (setContentJSON newWriter) e) = StatusOK \<or>
   responseCode (respondRead marshal g (setContentJSON newWriter) e) = StatusInternalServerError"
  by (simp add: responseCode_respondRead split: option.splits)

lemma custom_refused_unchanged:
  assumes "checklock r \<and> ReadRunLock (state e) \<or> readFails r \<or> 512 < fst (Body_Read r 513) \<or>
     use (whitelists e) \<and> TrimRight (snd (Body_Read r 513)) \<notin> set (whitelist (whitelists e))"
  shows "snd (registerChefCustomRun marshal u t r e) = e"
proof (cases "checklock r \<and> ReadRunLock (state e)")
  case True
  then show ?thesis by (simp add: custom_locked)
next
  case unlocked: False
  show ?thesis
  proof (cases "readFails r")
    case True
    with unlocked show ?thesis by (simp add: custom_readFails)
  next
    case ok: False
    show ?thesis
    proof (cases "512 < fst (Body_Read r 513)")
      case True
      with unlocked ok show ?thesis by (simp add: custom_tooLarge)
    next
      case small: False
      from unlocked ok small assms
      have "use (whitelists e)"
        "TrimRight (snd (Body_Read r 513)) \<notin> set (whitelist (whitelists e))"
        by blast+
      then show ?thesis
        by (simp add: custom_notListed [OF unlocked ok small])
    qed
  qed
qed

lemma fresh_admission:
  "table (state (snd (callWorker (CustomRun c sampleGuid sampleTime) e))) =
     [\<lparr>guid = sampleGuid, status = Registered, exitcode = 99, starttime = sampleTime,
       ondemand = True, custom = Some c\<rparr>]"
  if "queued (worker e) = None" "table (state e) = []"
  using that
  by (simp add: callWorker_def CustomRun_def admitRun_def uniqueIdentifier_def Let_def)

text \<open>
  C1. With the run lock set, \<^verbatim>\<open>registerChefRun\<close> answers 403 Forbidden and leaves the
  engine as it was: no record is created and the Job Table is unchanged. So does
  \<^verbatim>\<open>registerChefCustomRun\<close> for every request whose first \<^verbatim>\<open>force\<close> value, if any, is
  not \<^verbatim>\<open>true\<close>.
\<close>

theorem run_lock_refuses:
  "ReadRunLock (state e) \<Longrightarrow>
   responseCode (fst (registerChefRun marshal u t e)) = StatusForbidden \<and>
   written (fst (registerChefRun marshal u t e)) = lockedMessage \<and>
   snd (registerChefRun marshal u t e) = e \<and>
   table (state (snd (registerChefRun marshal u t e))) = table (state e) \<and>
   (force r = [] \<or> hd (force r) \<noteq> ''true'' \<longrightarrow>
      responseCode (fst (registerChefCustomRun marshal u t r e)) = StatusForbidden \<and>
      written (fst (registerChefCustomRun marshal u t r e)) = lockedMessage \<and>
      snd (registerChefCustomRun marshal u t r e) = e \<and>
      table (state (snd (registerChefCustomRun marshal u t r e))) = table (state e))"
proof -
  assume locked: "ReadRunLock (state e)"
  have od: "registerChefRun marshal u t e =
     (Fprint lockedMessage (WriteHeader StatusForbidden (setContentJSON newWriter)), e)"
    by (rule registerChefRun_locked [OF locked])
  have cu: "registerChefCustomRun marshal u t r e =
     (Fprint lockedMessage (WriteHeader StatusForbidden (setContentJSON newWriter)), e)"
    if "force r = [] \<or> hd (force r) \<noteq> ''true''"
    using that by (intro custom_locked [OF _ locked]) (simp add: checklock_iff)
  show ?thesis
    by (simp add: od cu)
qed

theorem run_lock_refuses_witness:
  "ReadRunLock (state (snd (setChefLock freshEngine))) \<and>
   responseCode (fst (registerChefRun sampleMarshal sampleGuid sampleTime
      (snd (setChefLock freshEngine)))) = 403 \<and>
   snd (registerChefRun sampleMarshal sampleGuid sampleTime (snd (setChefLock freshEngine))) =
      snd (setChefLock freshEngine) \<and>
   table (state (snd (registerChefRun sampleMarshal sampleGuid sampleTime
      (snd (setChefLock freshEngine))))) = [] \<and>
   responseCode (fst (registerChefCustomRun sampleMarshal sampleGuid sampleTime
      \<lparr>force = [''false''], body = ''knife status'', readFails = False, atHand = 12\<rparr>
      (snd (setChefLock freshEngine)))) = 403 \<and>
   table (state (snd (registerChefCustomRun sampleMarshal sampleGuid sampleTime
      \<lparr>force = [''false''], body = ''knife status'', readFails = False, atHand = 12\<rparr>
      (snd (setChefLock freshEngine))))) = []"
proof -
  have locked: "ReadRunLock (state (snd (setChefLock freshEngine)))"
    by (simp add: setChefLock_def Let_def LockRuns_def ReadRunLock_def)
  have empty: "table (state (snd (setChefLock freshEngine))) = []"
    by (simp add: setChefLock_def Let_def LockRuns_def freshEngine_def New_def freshState_def)
  show ?thesis
    using locked empty
      run_lock_refuses [OF locked, of sampleMarshal sampleGuid sampleTime
        "\<lparr>force = [''false''], body = ''knife status'', readFails = False, atHand = 12\<rparr>"]
    by (simp add: status_defs)
qed

section \<open>Querying a run\<close>

text \<open>
  C3, as stated, fails: for an identifier that is not in the Job Table the handler
  answers 200, the status of a successful response, with the encoding of what \<^verbatim>\<open>Read\<close>
  returned.
\<close>

theorem getChefStatus_unknown_counterexample:
  "Read (state freshEngine) ''no-such-guid'' = None \<and>
   responseCode (fst (getChefStatus sampleMarshal ''no-such-guid'' freshEngine)) = 200 \<and>
   written (fst (getChefStatus sampleMarshal ''no-such-guid'' freshEngine)) =
     [Str ''null'', Lit ''\<newline>'']"
proof -
  have nf: "Read (state freshEngine) ''no-such-guid'' = None"
    by (simp add: Read_def freshEngine_def New_def freshState_def)
  show ?thesis
    by (simp add: nf getChefStatus_def respondRead_def sampleMarshal_def printJSON_def status_defs)
qed

text \<open>
  C3, amended. For an identifier that is not in the Job Table, \<^verbatim>\<open>getChefStatus\<close> changes
  nothing and never answers 404 Not Found: it answers 200 with the JSON encoding of what
  \<^verbatim>\<open>Read\<close> returned for the identifier, or 500 Internal Server Error when that encoding
  fails.
\<close>

theorem getChefStatus_unknown:
  "Read (state e) g = None \<Longrightarrow>
   snd (getChefStatus marshal g e) = e \<and>
   responseCode (fst (getChefStatus marshal g e)) \<noteq> StatusNotFound \<and>
   (\<forall>jsonBytes. marshal None = Some jsonBytes \<longrightarrow>
      responseCode (fst (getChefStatus marshal g e)) = StatusOK \<and>
      written (fst (getChefStatus marshal g e)) = [Str jsonBytes, Lit ''\<newline>'']) \<and>
   (marshal None = None \<longrightarrow>
      responseCode (fst (getChefStatus marshal g e)) = StatusInternalServerError \<and>
      written (fst (getChefStatus marshal g e)) = guidStatusMessage)"
proof -
  assume nf: "Read (state e) g = None"
  show ?thesis
  proof (cases "marshal None")
    case None
    then show ?thesis
      by (simp add: nf getChefStatus_def respondRead_def status_defs)
  next
    case (Some js)
    then show ?thesis
      by (simp add: nf getChefStatus_def respondRead_def printJSON_def status_defs)
  qed
qed

theorem getChefStatus_unknown_witness:
  "Read (state freshEngine) sampleGuid = None \<and>
   snd (getChefStatus sampleMarshal sampleGuid freshEngine) = freshEngine \<and>
   responseCode (fst (getChefStatus sampleMarshal sampleGuid freshEngine)) = 200 \<and>
   written (fst (getChefStatus sampleMarshal sampleGuid freshEngine)) =
     [Str ''null'', Lit ''\<newline>'']"
proof -
  have nf: "Read (state freshEngine) sampleGuid = None"
    by (simp add: Read_def freshEngine_def New_def freshState_def)
  have m: "sampleMarshal None = Some ''null''"
    by (simp add: sampleMarshal_def)
  show ?thesis
    using nf m getChefStatus_unknown [OF nf, of sampleMarshal]
    by (simp add: status_defs)
qed

section \<open>The size bound of a custom run\<close>

text \<open>
  C6, as stated, fails: with the run lock set and no \<^verbatim>\<open>force\<close> parameter, a request with
  a body of 513 bytes, all of them at hand, is refused by the lock check, with 403
  Forbidden and not with 400 Bad Request.
\<close>

theorem oversize_body_counterexample:
  "length (body \<lparr>force = [], body = replicate 513 (CHR ''a''), readFails = False, atHand = 513\<rparr>) = 513 \<and>
   responseCode (fst (registerChefCustomRun sampleMarshal sampleGuid sampleTime
      \<lparr>force = [], body = replicate 513 (CHR ''a''), readFails = False, atHand = 513\<rparr>
      (snd (setChefLock freshEngine)))) = 403"
proof -
  have locked: "ReadRunLock (state (snd (setChefLock freshEngine)))"
    by (simp add: setChefLock_def Let_def LockRuns_def ReadRunLock_def)
  have chk: "checklock \<lparr>force = [], body = replicate 513 (CHR ''a''), readFails = False, atHand = 513\<rparr>"
    by (simp add: checklock_def)
  show ?thesis
    by (simp add: custom_locked [OF chk locked] status_defs)
qed

text \<open>
  C6, amended. A request to \<^verbatim>\<open>registerChefCustomRun\<close> whose body exceeds 512 bytes, with
  more than 512 of them at hand when the handler reads, is refused and no run is
  created: the engine, with its Job Table, is unchanged. The answer is 400 Bad Request,
  unless the run lock is set and the request does not force the run: then the lock check
  comes first and answers 403 Forbidden. A body of at most 512 bytes that is read
  without an error is never answered with 400. (A longer body of which the handler's one
  read finds 512 bytes or fewer is not spoken of here.)
\<close>

theorem oversize_body_refused:
  "(512 < length (body r) \<and> 512 < atHand r \<longrightarrow>
      snd (registerChefCustomRun marshal u t r e) = e \<and>
      table (state (snd (registerChefCustomRun marshal u t r e))) = table (state e) \<and>
      responseCode (fst (registerChefCustomRun marshal u t r e)) =
        (if checklock r \<and> ReadRunLock (state e) then StatusForbidden else StatusBadRequest)) \<and>
   (length (body r) \<le> 512 \<and> \<not> readFails r \<longrightarrow>
      responseCode (fst (registerChefCustomRun marshal u t r e)) \<noteq> StatusBadRequest)"
proof (intro conjI impI)
  assume big: "512 < length (body r) \<and> 512 < atHand r"
  then have n: "512 < fst (Body_Read r 513)"
    by (simp add: Body_Read_large)
  have res: "registerChefCustomRun marshal u t r e =
      (if checklock r \<and> ReadRunLock (state e)
       then Fprint lockedMessage (WriteHeader StatusForbidden (setContentJSON newWriter))
       else if readFails r then WriteHeader StatusBadRequest (setContentJSON newWriter)
       else Fprint tooLargeMessage (WriteHeader StatusBadRequest (setContentJSON newWriter)), e)"
    using n by (auto simp: custom_locked custom_readFails custom_tooLarge)
  show "snd (registerChefCustomRun marshal u t r e) = e"
    by (simp add: res)
  show "table (state (snd (registerChefCustomRun marshal u t r e))) = table (state e)"
    by (simp add: res)
  show "responseCode (fst (registerChefCustomRun marshal u t r e)) =
        (if checklock r \<and> ReadRunLock (state e) then StatusForbidden else StatusBadRequest)"
    by (simp add: res)
next
  assume small: "length (body r) \<le> 512 \<and> \<not> readFails r"
  then have s1: "\<not> readFails r" and s2: "\<not> 512 < fst (Body_Read r 513)"
    by (simp_all add: Body_Read_small)
  show "responseCode (fst (registerChefCustomRun marshal u t r e)) \<noteq> StatusBadRequest"
  proof (cases "checklock r \<and> ReadRunLock (state e)")
    case True
    then show ?thesis
      by (simp add: custom_locked status_defs)
  next
    case unlocked: False
    show ?thesis
    proof (cases "use (whitelists e) \<and>
        TrimRight (snd (Body_Read r 513)) \<notin> set (whitelist (whitelists e))")
      case True
      then show ?thesis
        by (simp add: custom_notListed [OF unlocked s1 s2] status_defs)
    next
      case False
      then have ok: "\<not> use (whitelists e) \<or>
          TrimRight (snd (Body_Read r 513)) \<in> set (whitelist (whitelists e))"
        by blast
      show ?thesis
        using responseCode_respondRead_cases
          [of marshal "fst (callWorker (CustomRun (TrimRight (snd (Body_Read r 513))) u t) e)"
              "snd (callWorker (CustomRun (TrimRight (snd (Body_Read r 513))) u t) e)"]
        by (auto simp add: custom_admitted [OF unlocked s1 s2 ok] status_defs)
    qed
  qed
qed

theorem oversize_body_refused_witness:
  "512 < length (replicate 513 (CHR ''a'')) \<and>
   responseCode (fst (registerChefCustomRun sampleMarshal sampleGuid sampleTime
      \<lparr>force = [], body = replicate 513 (CHR ''a''), readFails = False, atHand = 513\<rparr>
      freshEngine)) = 400 \<and>
   snd (registerChefCustomRun sampleMarshal sampleGuid sampleTime
      \<lparr>force = [], body = replicate 513 (CHR ''a''), readFails = False, atHand = 513\<rparr>
      freshEngine) = freshEngine \<and>
   length (replicate 512 (CHR ''a'')) \<le> 512 \<and>
   responseCode (fst (registerChefCustomRun sampleMarshal sampleGuid sampleTime
      \<lparr>force = [], body = replicate 512 (CHR ''a''), readFails = False, atHand = 512\<rparr>
      freshEngine)) \<noteq> 400"
proof -
  have unlocked: "\<not> ReadRunLock (state freshEngine)"
    by (simp add: ReadRunLock_def freshEngine_def New_def freshState_def)
  show ?thesis
    using unlocked
      oversize_body_refused
        [of "\<lparr>force = [], body = replicate 513 (CHR ''a''), readFails = False, atHand = 513\<rparr>"
          sampleMarshal sampleGuid sampleTime freshEngine]
      oversize_body_refused
        [of "\<lparr>force = [], body = replicate 512 (CHR ''a''), readFails = False, atHand = 512\<rparr>"
          sampleMarshal sampleGuid sampleTime freshEngine]
    by (simp add: status_defs)
qed

section \<open>The whitelist of custom runs\<close>

text \<open>
  C7, as stated, fails: with the whitelist \<open>knife status\<close> configured and the lock off,
  a request whose text of 513 bytes is not on the list is refused by the size check,
  with 400 Bad Request and not with 403 Forbidden.
\<close>

theorem whitelist_check_counterexample:
  "use (whitelists (SetWhitelist [''knife status''] freshEngine)) \<and>
   replicate 513 (CHR ''a'') \<notin> set (whitelist (whitelists (SetWhitelist [''knife status''] freshEngine))) \<and>
   responseCode (fst (registerChefCustomRun sampleMarshal sampleGuid sampleTime
      \<lparr>force = [], body = replicate 513 (CHR ''a''), readFails = False, atHand = 513\<rparr>
      (SetWhitelist [''knife status''] freshEngine))) = 400"
proof -
  have unlocked: "\<not> (checklock \<lparr>force = [], body = replicate 513 (CHR ''a''), readFails = False, atHand = 513\<rparr> \<and>
      ReadRunLock (state (SetWhitelist [''knife status''] freshEngine)))"
    by (simp add: ReadRunLock_def SetWhitelist_def freshEngine_def New_def freshState_def)
  have n: "512 < fst (Body_Read \<lparr>force = [], body = replicate 513 (CHR ''a''), readFails = False, atHand = 513\<rparr> 513)"
    by (simp add: Body_Read_count)
  have differ: "replicate 513 (CHR ''a'') \<noteq> ''knife status''"
  proof
    assume "replicate 513 (CHR ''a'') = ''knife status''"
    then have "length (replicate 513 (CHR ''a'')) = length ''knife status''"
      by (rule arg_cong)
    then show False
      by simp
  qed
  have code: "responseCode (fst (registerChefCustomRun sampleMarshal sampleGuid sampleTime
      \<lparr>force = [], body = replicate 513 (CHR ''a''), readFails = False, atHand = 513\<rparr>
      (SetWhitelist [''knife status''] freshEngine))) = 400"
    by (simp add: custom_tooLarge [OF unlocked _ n] status_defs)
  have wl: "use (whitelists (SetWhitelist [''knife status''] freshEngine))"
    "whitelist (whitelists (SetWhitelist [''knife status''] freshEngine)) = [''knife status'']"
    by (simp_all add: SetWhitelist_def)
  show ?thesis
    using differ code wl by simp
qed

text \<open>
  C7, amended. Take a request whose body is at hand whole when the handler reads; its
  command text is the body with the trailing zero bytes cut off. When a whitelist is
  configured (\<^verbatim>\<open>SetWhitelist\<close> sets the list and switches it on; a new engine has it off)
  and the text is not equal to any entry, no run is created (the engine is unchanged)
  and the request is refused: with 403 Forbidden, except that a failed read or a body
  of more than 512 bytes, on a request that the lock check lets through, is answered by
  the earlier size check with 400 Bad Request. When the body is read without error, is
  at most 512 bytes long, and the text is equal to an entry or no whitelist is
  configured, a request that the lock check lets through reaches the worker: the engine
  that results is the one \<^verbatim>\<open>CustomRun\<close> leaves for this text, and the answer is not 403.
\<close>

theorem whitelist_check:
  "length (body r) \<le> atHand r \<Longrightarrow>
   (use (whitelists e) \<and> TrimRight (body r) \<notin> set (whitelist (whitelists e)) \<longrightarrow>
      snd (registerChefCustomRun marshal u t r e) = e \<and>
      responseCode (fst (registerChefCustomRun marshal u t r e)) =
        (if checklock r \<and> ReadRunLock (state e) then StatusForbidden
         else if readFails r \<or> 512 < length (body r) then StatusBadRequest
         else StatusForbidden)) \<and>
   (length (body r) \<le> 512 \<longrightarrow> TrimRight (snd (Body_Read r 513)) = TrimRight (body r)) \<and>
   (\<not> readFails r \<and> length (body r) \<le> 512 \<and> \<not> (checklock r \<and> ReadRunLock (state e)) \<and>
    (\<not> use (whitelists e) \<or> TrimRight (body r) \<in> set (whitelist (whitelists e))) \<longrightarrow>
      snd (registerChefCustomRun marshal u t r e) =
        snd (callWorker (CustomRun (TrimRight (body r)) u t) e) \<and>
      fst (registerChefCustomRun marshal u t r e) =
        respondRead marshal (fst (callWorker (CustomRun (TrimRight (body r)) u t) e))
          (setContentJSON newWriter) (snd (callWorker (CustomRun (TrimRight (body r)) u t) e)) \<and>
      responseCode (fst (registerChefCustomRun marshal u t r e)) \<noteq> StatusForbidden) \<and>
   use (whitelists (SetWhitelist wl e)) \<and> whitelist (whitelists (SetWhitelist wl e)) = wl \<and>
   \<not> use (whitelists (New st wk))"
proof -
  assume whole: "length (body r) \<le> atHand r"
  have trim: "TrimRight (snd (Body_Read r 513)) = TrimRight (body r)"
    and small: "\<not> 512 < fst (Body_Read r 513)" if "length (body r) \<le> 512"
    using Body_Read_whole [OF whole that] by simp_all
  have large: "512 < fst (Body_Read r 513)" if "512 < length (body r)"
    using that whole by (intro Body_Read_large) simp_all
  have out: "snd (registerChefCustomRun marshal u t r e) = e \<and>
      responseCode (fst (registerChefCustomRun marshal u t r e)) =
        (if checklock r \<and> ReadRunLock (state e) then StatusForbidden
         else if readFails r \<or> 512 < length (body r) then StatusBadRequest
         else StatusForbidden)"
    if no: "use (whitelists e) \<and> TrimRight (body r) \<notin> set (whitelist (whitelists e))"
  proof (cases "checklock r \<and> ReadRunLock (state e)")
    case True
    then show ?thesis by (simp add: custom_locked)
  next
    case unlocked: False
    show ?thesis
    proof (cases "readFails r")
      case True
      with unlocked show ?thesis by (auto simp add: custom_readFails)
    next
      case ok: False
      show ?thesis
      proof (cases "512 < length (body r)")
        case True
        with unlocked ok show ?thesis by (auto simp add: custom_tooLarge [OF unlocked ok large])
      next
        case False
        then have le: "length (body r) \<le> 512" by simp
        from no have "use (whitelists e)"
          "TrimRight (snd (Body_Read r 513)) \<notin> set (whitelist (whitelists e))"
          by (simp_all add: trim [OF le])
        then show ?thesis
          using unlocked ok False
          by (auto simp add: custom_notListed [OF unlocked ok small [OF le]])
      qed
    qed
  qed
  have pass: "snd (registerChefCustomRun marshal u t r e) =
        snd (callWorker (CustomRun (TrimRight (body r)) u t) e) \<and>
      fst (registerChefCustomRun marshal u t r e) =
        respondRead marshal (fst (callWorker (CustomRun (TrimRight (body r)) u t) e))
          (setContentJSON newWriter) (snd (callWorker (CustomRun (TrimRight (body r)) u t) e)) \<and>
      responseCode (fst (registerChefCustomRun marshal u t r e)) \<noteq> StatusForbidden"
    if yes: "\<not> readFails r \<and> length (body r) \<le> 512 \<and> \<not> (checklock r \<and> ReadRunLock (state e)) \<and>
      (\<not> use (whitelists e) \<or> TrimRight (body r) \<in> set (whitelist (whitelists e)))"
  proof -
    from yes have ok: "\<not> readFails r" and le: "length (body r) \<le> 512"
      and unlocked: "\<not> (checklock r \<and> ReadRunLock (state e))"
      by blast+
    from yes have listed: "\<not> use (whitelists e) \<or>
        TrimRight (snd (Body_Read r 513)) \<in> set (whitelist (whitelists e))"
      by (simp add: trim [OF le])
    note res = custom_admitted [OF unlocked ok small [OF le] listed, of marshal u t]
    have "responseCode (fst (registerChefCustomRun marshal u t r e)) \<noteq> StatusForbidden"
      using responseCode_respondRead_cases
          [of marshal "fst (callWorker (CustomRun (TrimRight (snd (Body_Read r 513))) u t) e)"
              "snd (callWorker (CustomRun (TrimRight (snd (Body_Read r 513))) u t) e)"]
      by (auto simp add: res status_defs)
    then show ?thesis
      by (simp add: res trim [OF le])
  qed
  have sw: "use (whitelists (SetWhitelist wl e))" "whitelist (whitelists (SetWhitelist wl e)) = wl"
    "\<not> use (whitelists (New st wk))"
    by (simp_all add: SetWhitelist_def New_def)
  show ?thesis
    using out trim pass sw by blast
qed

theorem whitelist_check_witness:
  "responseCode (fst (registerChefCustomRun sampleMarshal sampleGuid sampleTime
      \<lparr>force = [], body = ''rm -rf /'', readFails = False, atHand = 8\<rparr>
      (SetWhitelist [''knife status''] freshEngine))) = 403 \<and>
   snd (registerChefCustomRun sampleMarshal sampleGuid sampleTime
      \<lparr>force = [], body = ''rm -rf /'', readFails = False, atHand = 8\<rparr>
      (SetWhitelist [''knife status''] freshEngine)) = SetWhitelist [''knife status''] freshEngine \<and>
   table (state (snd (registerChefCustomRun sampleMarshal sampleGuid sampleTime
      \<lparr>force = [], body = ''knife status'', readFails = False, atHand = 12\<rparr>
      (SetWhitelist [''knife status''] freshEngine)))) =
     [\<lparr>guid = sampleGuid, status = Registered, exitcode = 99, starttime = sampleTime,
       ondemand = True, custom = Some ''knife status''\<rparr>] \<and>
   table (state (snd (registerChefCustomRun sampleMarshal sampleGuid sampleTime
      \<lparr>force = [], body = ''rm -rf /'', readFails = False, atHand = 8\<rparr> freshEngine))) =
     [\<lparr>guid = sampleGuid, status = Registered, exitcode = 99, starttime = sampleTime,
       ondemand = True, custom = Some ''rm -rf /''\<rparr>]"
proof -
  have t1: "TrimRight ''rm -rf /'' = ''rm -rf /''" and t2: "TrimRight ''knife status'' = ''knife status''"
    by (simp_all add: TrimRight_def)
  have unlocked: "\<not> ReadRunLock (state (SetWhitelist [''knife status''] freshEngine))"
    "\<not> ReadRunLock (state freshEngine)"
    by (simp_all add: ReadRunLock_def SetWhitelist_def freshEngine_def New_def freshState_def)
  have run1: "table (state (snd (callWorker (CustomRun ''knife status'' sampleGuid sampleTime)
      (SetWhitelist [''knife status''] freshEngine)))) =
     [\<lparr>guid = sampleGuid, status = Registered, exitcode = 99, starttime = sampleTime,
       ondemand = True, custom = Some ''knife status''\<rparr>]"
    by (rule fresh_admission) (simp_all add: SetWhitelist_def freshEngine_def New_def freshState_def)
  have run2: "table (state (snd (callWorker (CustomRun ''rm -rf /'' sampleGuid sampleTime) freshEngine))) =
     [\<lparr>guid = sampleGuid, status = Registered, exitcode = 99, starttime = sampleTime,
       ondemand = True, custom = Some ''rm -rf /''\<rparr>]"
    by (rule fresh_admission) (simp_all add: freshEngine_def New_def freshState_def)
  have wl: "use (whitelists (SetWhitelist [''knife status''] freshEngine))"
    "whitelist (whitelists (SetWhitelist [''knife status''] freshEngine)) = [''knife status'']"
    "\<not> use (whitelists freshEngine)"
    by (simp_all add: SetWhitelist_def freshEngine_def New_def)
  show ?thesis
    using unlocked
      whitelist_check [of "\<lparr>force = [], body = ''rm -rf /'', readFails = False, atHand = 8\<rparr>"
        "SetWhitelist [''knife status''] freshEngine" sampleMarshal sampleGuid sampleTime]
      whitelist_check [of "\<lparr>force = [], body = ''knife status'', readFails = False, atHand = 12\<rparr>"
        "SetWhitelist [''knife status''] freshEngine" sampleMarshal sampleGuid sampleTime]
      whitelist_check [of "\<lparr>force = [], body = ''rm -rf /'', readFails = False, atHand = 8\<rparr>"
        freshEngine sampleMarshal sampleGuid sampleTime]
    by (simp add: t1 t2 run1 run2 wl status_defs)
qed

section \<open>Forcing a custom run\<close>

text \<open>
  C10. The statement is not met by the code at this input: the run lock is set, the
  request carries \<^verbatim>\<open>force=true\<close> and a body of 600 bytes, of which 100 are at hand when
  the handler makes its one call of \<^verbatim>\<open>Read\<close>. The call returns 100, the test against
  512 passes, and the handler answers 200 with a run registered for the first 100 bytes;
  the size bound that the statement expects to refuse the payload has not done so.
\<close>

theorem forced_oversize_body_in_parts:
  "ReadRunLock (state (snd (setChefLock freshEngine))) \<and>
   length (body \<lparr>force = [''true''], body = replicate 600 (CHR ''a''), readFails = False, atHand = 100\<rparr>) = 600 \<and>
   responseCode (fst (registerChefCustomRun sampleMarshal sampleGuid sampleTime
      \<lparr>force = [''true''], body = replicate 600 (CHR ''a''), readFails = False, atHand = 100\<rparr>
      (snd (setChefLock freshEngine)))) = 200 \<and>
   table (state (snd (registerChefCustomRun sampleMarshal sampleGuid sampleTime
      \<lparr>force = [''true''], body = replicate 600 (CHR ''a''), readFails = False, atHand = 100\<rparr>
      (snd (setChefLock freshEngine))))) =
     [\<lparr>guid = sampleGuid, status = Registered, exitcode = 99, starttime = sampleTime,
       ondemand = True, custom = Some (replicate 100 (CHR ''a''))\<rparr>]"
proof -
  define r where "r = \<lparr>force = [''true''], body = replicate 600 (CHR ''a''), readFails = False, atHand = 100\<rparr>"
  define e where "e = snd (setChefLock freshEngine)"
  have locked: "ReadRunLock (state e)"
    by (simp add: e_def setChefLock_def Let_def LockRuns_def ReadRunLock_def)
  have forced: "\<not> (checklock r \<and> ReadRunLock (state e))"
    by (simp add: r_def checklock_def)
  have ok: "\<not> readFails r"
    by (simp add: r_def)
  have n: "fst (Body_Read r 513) = 100"
    by (simp add: Body_Read_count r_def)
  then have small: "\<not> 512 < fst (Body_Read r 513)"
    by simp
  have "TrimRight (snd (Body_Read r 513)) = TrimRight (take 100 (body r))"
    by (simp only: Body_Read_text n)
  then have cut: "TrimRight (snd (Body_Read r 513)) = replicate 100 (CHR ''a'')"
    by (simp add: r_def TrimRight_replicate)
  have nolist: "\<not> use (whitelists e) \<or>
      TrimRight (snd (Body_Read r 513)) \<in> set (whitelist (whitelists e))"
    by (simp add: e_def setChefLock_def Let_def freshEngine_def New_def)
  have empty: "queued (worker e) = None" "table (state e) = []"
    by (simp_all add: e_def setChefLock_def Let_def LockRuns_def freshEngine_def New_def freshState_def)
  note res = custom_admitted [OF forced ok small nolist, of sampleMarshal sampleGuid sampleTime]
  have code: "responseCode (fst (registerChefCustomRun sampleMarshal sampleGuid sampleTime r e)) = 200"
    by (simp add: res responseCode_respondRead sampleMarshal_def status_defs)
  have run: "table (state (snd (registerChefCustomRun sampleMarshal sampleGuid sampleTime r e))) =
     [\<lparr>guid = sampleGuid, status = Registered, exitcode = 99, starttime = sampleTime,
       ondemand = True, custom = Some (replicate 100 (CHR ''a''))\<rparr>]"
    by (simp add: res cut fresh_admission [OF empty])
  have len: "length (body r) = 600"
    by (simp add: r_def)
  show ?thesis
    using locked len code run unfolding r_def e_def by simp
qed

section \<open>The single queue slot\<close>

lemma longest_bound: "r \<in> set rs \<Longrightarrow> length (guid r) \<le> longest rs"
  by (induction rs) (auto simp add: longest_def)

lemma uniqueIdentifier_fresh: "find (\<lambda>r. guid r = uniqueIdentifier u rs) rs = None"
proof (cases "find (\<lambda>r. guid r = u) rs")
  case None
  then show ?thesis
    by (simp add: uniqueIdentifier_def)
next
  case (Some x)
  have "guid r \<noteq> replicate (Suc (longest rs)) (CHR ''0'')" if "r \<in> set rs" for r
  proof
    assume "guid r = replicate (Suc (longest rs)) (CHR ''0'')"
    then have "length (guid r) = Suc (longest rs)"
      by simp
    with longest_bound [OF that] show False
      by simp
  qed
  with Some show ?thesis
    by (simp add: uniqueIdentifier_def find_None_iff)
qed

lemma find_setStatus:
  "find (\<lambda>r. guid r = h) (setStatus g s rs) =
     map_option (\<lambda>r. if guid r = g then r\<lparr>status := s\<rparr> else r) (find (\<lambda>r. guid r = h) rs)"
  by (induction rs) (simp_all add: setStatus_def)

lemma longest_setStatus: "longest (setStatus g s rs) = longest rs"
  by (induction rs) (simp_all add: setStatus_def longest_def)

lemma uniqueIdentifier_setStatus:
  "uniqueIdentifier u (setStatus g s rs) = uniqueIdentifier u rs"
  by (cases "find (\<lambda>r. guid r = u) rs")
    (simp_all add: uniqueIdentifier_def find_setStatus longest_setStatus)

lemma find_append_None:
  "find P xs = None \<Longrightarrow> find P (xs @ ys) = find P ys"
  by (induction xs) (simp_all split: if_splits)

lemma admitRun_queued:
  "queued (fst ws) = Some g \<Longrightarrow> admitRun origin payload u t ws = (g, ws)"
  by (simp add: admitRun_def)

lemma requestRun_locked:
  "runLock (snd ws) \<Longrightarrow> requestRun origin payload False u t ws = (Inl Locked, ws)"
  by (simp add: requestRun_def)

lemma requestRun_queued:
  "\<not> runLock (snd ws) \<Longrightarrow> queued (fst ws) = Some g \<Longrightarrow>
   requestRun origin payload False u t ws = (Inr g, ws)"
  by (simp add: requestRun_def admitRun_queued)

lemma requestOnDemandRuns_queued:
  "\<not> runLock (snd ws) \<Longrightarrow> queued (fst ws) = Some g \<Longrightarrow>
   requestOnDemandRuns ds ws = (replicate (length ds) (Inr g), ws)"
  by (induction ds) (simp_all add: requestRun_queued Let_def)

lemma requestOnDemandRuns_locked:
  "runLock (snd ws) \<Longrightarrow> requestOnDemandRuns ds ws = (replicate (length ds) (Inl Locked), ws)"
  by (induction ds) (simp_all add: requestRun_locked Let_def)

lemma workerTake_queued:
  "queued (fst ws) = Some g \<Longrightarrow>
   workerTake ws = ((fst ws)\<lparr>queued := None\<rparr>, (snd ws)\<lparr>table := setStatus g Running (table (snd ws))\<rparr>)"
  by (simp add: workerTake_def)

lemma requestRun_after_take:
  "queued (fst ws) = Some g \<Longrightarrow> \<not> runLock (snd ws) \<Longrightarrow>
   requestRun OnDemand None False u t (workerTake ws) =
     (Inr (uniqueIdentifier u (table (snd ws))),
      (fst ws)\<lparr>queued := Some (uniqueIdentifier u (table (snd ws)))\<rparr>,
      (snd ws)\<lparr>table := setStatus g Running (table (snd ws)) @
         [\<lparr>guid = uniqueIdentifier u (table (snd ws)), status = Registered, exitcode = 99,
           starttime = t, ondemand = True, custom = None\<rparr>]\<rparr>)"
  by (simp add: workerTake_queued requestRun_def admitRun_def Let_def uniqueIdentifier_setStatus)

text \<open>
  C2, as stated, fails: a run is queued (\<^verbatim>\<open>registerChefRun\<close> on the fresh engine has put
  its identifier in the slot), then the run lock is set; the next request, issued while
  the run is still queued, is answered 403 Forbidden with the locked message and no
  identifier, and the request of section 4.1 fails with \<open>Locked\<close>.
\<close>

theorem single_slot_locked_counterexample:
  "queued (worker (snd (setChefLock (snd (registerChefRun sampleMarshal sampleGuid sampleTime
      freshEngine))))) = Some sampleGuid \<and>
   responseCode (fst (registerChefRun sampleMarshal ''another draw'' sampleTime
      (snd (setChefLock (snd (registerChefRun sampleMarshal sampleGuid sampleTime freshEngine)))))) = 403 \<and>
   written (fst (registerChefRun sampleMarshal ''another draw'' sampleTime
      (snd (setChefLock (snd (registerChefRun sampleMarshal sampleGuid sampleTime freshEngine)))))) =
     lockedMessage \<and>
   fst (requestRun OnDemand None False ''another draw'' sampleTime
      (worker (snd (setChefLock (snd (registerChefRun sampleMarshal sampleGuid sampleTime freshEngine)))),
       state (snd (setChefLock (snd (registerChefRun sampleMarshal sampleGuid sampleTime freshEngine))))))
     = Inl Locked"
proof -
  define e where "e = snd (setChefLock (snd (registerChefRun sampleMarshal sampleGuid sampleTime freshEngine)))"
  have q: "queued (worker e) = Some sampleGuid"
    by (simp add: e_def setChefLock_def registerChefRun_def Let_def callWorker_def OnDemandRun_def
        admitRun_def uniqueIdentifier_def ReadRunLock_def freshEngine_def New_def freshState_def)
  have locked: "ReadRunLock (state e)" "runLock (snd (worker e, state e))"
    by (simp_all add: e_def setChefLock_def Let_def LockRuns_def ReadRunLock_def)
  show ?thesis
    unfolding e_def [symmetric]
    using q by (simp add: registerChefRun_locked [OF locked(1)] requestRun_locked [OF locked(2)] status_defs)
qed

text \<open>
  C2, amended. While a run with the identifier \<open>g\<close> is in the queue slot, its record in
  the Job Table, and the run lock is not set, every request of a sequence of on-demand
  requests returns \<open>g\<close> and leaves the worker and the state table as they were, whatever
  was drawn for the requests, and \<^verbatim>\<open>registerChefRun\<close> answers with the record of \<open>g\<close>.
  With the run lock set every such request is refused with \<open>Locked\<close> (403 Forbidden from
  \<^verbatim>\<open>registerChefRun\<close>), nothing changing. Once the worker has taken the run (the slot is
  empty and the record of \<open>g\<close> is running), the next request, the lock not set, returns
  a fresh identifier: it is different from \<open>g\<close>, it was not in the Job Table, it is in
  the slot, and its record is the new registered one.
\<close>

theorem single_slot_coalescing:
  "queued (worker e) = Some g \<Longrightarrow> Read (state e) g = Some r \<Longrightarrow>
   (\<not> runLock (state e) \<longrightarrow>
      requestOnDemandRuns ds (worker e, state e) = (replicate (length ds) (Inr g), worker e, state e) \<and>
      registerChefRun marshal u t e = (respondRead marshal g (setContentJSON newWriter) e, e)) \<and>
   (runLock (state e) \<longrightarrow>
      requestOnDemandRuns ds (worker e, state e) =
        (replicate (length ds) (Inl Locked), worker e, state e) \<and>
      responseCode (fst (registerChefRun marshal u t e)) = StatusForbidden \<and>
      snd (registerChefRun marshal u t e) = e) \<and>
   queued (fst (workerTake (worker e, state e))) = None \<and>
   Read (snd (workerTake (worker e, state e))) g = Some (r\<lparr>status := Running\<rparr>) \<and>
   (\<not> runLock (state e) \<longrightarrow>
      fst (requestRun OnDemand None False u t (workerTake (worker e, state e))) =
        Inr (uniqueIdentifier u (table (state e))) \<and>
      uniqueIdentifier u (table (state e)) \<noteq> g \<and>
      Read (state e) (uniqueIdentifier u (table (state e))) = None \<and>
      queued (fst (snd (requestRun OnDemand None False u t (workerTake (worker e, state e))))) =
        Some (uniqueIdentifier u (table (state e))) \<and>
      Read (snd (snd (requestRun OnDemand None False u t (workerTake (worker e, state e)))))
          (uniqueIdentifier u (table (state e))) =
        Some \<lparr>guid = uniqueIdentifier u (table (state e)), status = Registered, exitcode = 99,
              starttime = t, ondemand = True, custom = None\<rparr>)"
proof -
  assume q: "queued (worker e) = Some g" and rec: "Read (state e) g = Some r"
  from q have q': "queued (fst (worker e, state e)) = Some g"
    by simp
  have new: "Read (state e) (uniqueIdentifier u (table (state e))) = None"
    by (simp add: Read_def uniqueIdentifier_fresh)
  with rec have differ: "uniqueIdentifier u (table (state e)) \<noteq> g"
    by auto
  from rec have gr: "guid r = g"
    by (auto simp add: Read_def find_Some_iff)
  have unlocked: "requestOnDemandRuns ds (worker e, state e) =
        (replicate (length ds) (Inr g), worker e, state e) \<and>
      registerChefRun marshal u t e = (respondRead marshal g (setContentJSON newWriter) e, e)"
    if open_: "\<not> runLock (state e)"
  proof -
    have call: "callWorker (OnDemandRun u t) e = (g, e)"
      by (simp add: callWorker_def Let_def OnDemandRun_def admitRun_queued [OF q'])
    from open_ have "\<not> ReadRunLock (state e)"
      by (simp add: ReadRunLock_def)
    then have "registerChefRun marshal u t e = (respondRead marshal g (setContentJSON newWriter) e, e)"
      by (simp add: registerChefRun_unlocked call)
    moreover have "requestOnDemandRuns ds (worker e, state e) =
        (replicate (length ds) (Inr g), worker e, state e)"
      using open_ q' by (intro requestOnDemandRuns_queued) simp_all
    ultimately show ?thesis
      by simp
  qed
  have locked: "requestOnDemandRuns ds (worker e, state e) =
        (replicate (length ds) (Inl Locked), worker e, state e) \<and>
      responseCode (fst (registerChefRun marshal u t e)) = StatusForbidden \<and>
      snd (registerChefRun marshal u t e) = e"
    if shut: "runLock (state e)"
  proof -
    from shut have "ReadRunLock (state e)"
      by (simp add: ReadRunLock_def)
    then have "registerChefRun marshal u t e =
        (Fprint lockedMessage (WriteHeader StatusForbidden (setContentJSON newWriter)), e)"
      by (rule registerChefRun_locked)
    moreover have "requestOnDemandRuns ds (worker e, state e) =
        (replicate (length ds) (Inl Locked), worker e, state e)"
      using shut by (intro requestOnDemandRuns_locked) simp
    ultimately show ?thesis
      by simp
  qed
  have taken: "queued (fst (workerTake (worker e, state e))) = None"
    "Read (snd (workerTake (worker e, state e))) g = Some (r\<lparr>status := Running\<rparr>)"
    using rec gr by (simp_all add: workerTake_queued [OF q'] Read_def find_setStatus)
  have fresh: "fst (requestRun OnDemand None False u t (workerTake (worker e, state e))) =
        Inr (uniqueIdentifier u (table (state e))) \<and>
      queued (fst (snd (requestRun OnDemand None False u t (workerTake (worker e, state e))))) =
        Some (uniqueIdentifier u (table (state e))) \<and>
      Read (snd (snd (requestRun OnDemand None False u t (workerTake (worker e, state e)))))
          (uniqueIdentifier u (table (state e))) =
        Some \<lparr>guid = uniqueIdentifier u (table (state e)), status = Registered, exitcode = 99,
              starttime = t, ondemand = True, custom = None\<rparr>"
    if open_: "\<not> runLock (state e)"
  proof -
    from open_ have o: "\<not> runLock (snd (worker e, state e))"
      by simp
    have "find (\<lambda>x. guid x = uniqueIdentifier u (table (state e)))
        (setStatus g Running (table (state e))) = None"
      by (simp add: find_setStatus uniqueIdentifier_fresh)
    then show ?thesis
      by (simp add: requestRun_after_take [OF q' o] Read_def find_append_None)
  qed
  show ?thesis
    using unlocked locked taken fresh differ new by blast
qed

theorem single_slot_coalescing_witness:
  "queued (worker (snd (registerChefRun sampleMarshal sampleGuid sampleTime freshEngine))) =
     Some sampleGuid \<and>
   Read (state (snd (registerChefRun sampleMarshal sampleGuid sampleTime freshEngine))) sampleGuid =
     Some \<lparr>guid = sampleGuid, status = Registered, exitcode = 99, starttime = sampleTime,
           ondemand = True, custom = None\<rparr> \<and>
   fst (requestOnDemandRuns [(''a'', 1), (''b'', 2), (sampleGuid, 3)]
     (worker (snd (registerChefRun sampleMarshal sampleGuid sampleTime freshEngine)),
      state (snd (registerChefRun sampleMarshal sampleGuid sampleTime freshEngine)))) =
     [Inr sampleGuid, Inr sampleGuid, Inr sampleGuid] \<and>
   fst (requestRun OnDemand None False sampleGuid 4 (workerTake
     (worker (snd (registerChefRun sampleMarshal sampleGuid sampleTime freshEngine)),
      state (snd (registerChefRun sampleMarshal sampleGuid sampleTime freshEngine))))) =
     Inr (replicate 37 (CHR ''0'')) \<and>
   replicate 37 (CHR ''0'') \<noteq> sampleGuid"
proof -
  define e where "e = snd (registerChefRun sampleMarshal sampleGuid sampleTime freshEngine)"
  have st: "worker e = \<lparr>queued = Some sampleGuid\<rparr>"
    "table (state e) = [\<lparr>guid = sampleGuid, status = Registered, exitcode = 99,
        starttime = sampleTime, ondemand = True, custom = None\<rparr>]"
    "\<not> runLock (state e)"
    by (simp_all add: e_def registerChefRun_def Let_def callWorker_def OnDemandRun_def admitRun_def
        uniqueIdentifier_def ReadRunLock_def freshEngine_def New_def freshState_def)
  have q: "queued (worker e) = Some sampleGuid"
    by (simp add: st)
  have rec: "Read (state e) sampleGuid =
     Some \<lparr>guid = sampleGuid, status = Registered, exitcode = 99, starttime = sampleTime,
           ondemand = True, custom = None\<rparr>"
    by (simp add: Read_def st)
  have len: "length sampleGuid = 36"
    by (simp add: sampleGuid_def)
  have n: "uniqueIdentifier sampleGuid (table (state e)) = replicate 37 (CHR ''0'')"
    by (simp add: uniqueIdentifier_def st longest_def len)
  show ?thesis
    unfolding e_def [symmetric]
    using q rec st(3) n
      single_slot_coalescing [OF q rec, of "[(''a'', 1), (''b'', 2), (sampleGuid, 3)]" sampleMarshal sampleGuid 4]
    by simp
qed

end
